theory Spec2Isabelle
  imports Main "HOL-Library.List_Lexorder" "HOL-Library.Char_ord"
begin

section \<open>snapper: timestamped rsync snapshots with a Latest link\<close>

text \<open>
  A shallow embedding of \<^verbatim>\<open>snapper.go\<close>. The program is one function, \<^verbatim>\<open>main\<close>,
  that validates two positional arguments, makes sure the snapshots directory exists,
  looks at the \<^verbatim>\<open>Latest\<close> link, builds the argument list of \<^verbatim>\<open>rsync\<close>, creates a
  directory named by the current UTC time, runs \<^verbatim>\<open>rsync\<close> and finally replaces the
  \<^verbatim>\<open>Latest\<close> link. Every \<^verbatim>\<open>os.Exit\<close> of the source is an outcome of the model, every call
  of the operating system is written into a log, and the file system is a map from paths
  to what they hold.
\<close>

subsection \<open>Constants of the source\<close>

definition rsyncCommand :: string where
  "rsyncCommand = ''rsync''"

definition rsyncArchiveFlags :: string where
  "rsyncArchiveFlags = ''-aPh''"

definition rsyncDisableSpecials :: string where
  "rsyncDisableSpecials = ''--no-specials''"

definition rsyncDisableDevices :: string where
  "rsyncDisableDevices = ''--no-devices''"

definition rsyncBaseFlagFormat :: string where
  "rsyncBaseFlagFormat = ''--link-dest=%s''"

definition rsyncExcludeFlagFormat :: string where
  "rsyncExcludeFlagFormat = ''--exclude=%s''"

text \<open>The octal literal \<^verbatim>\<open>0700\<close>.\<close>

definition snapshotPermissions :: nat where
  "snapshotPermissions = 448"

definition latestSnapshotLinkName :: string where
  "latestSnapshotLinkName = ''Latest''"

subsection \<open>Library functions the program calls\<close>

text \<open>
  \<^verbatim>\<open>fmt.Sprintf\<close> with one string argument, for a format whose only verb is \<^verbatim>\<open>%s\<close>: the
  text before the verb, the argument, the text after it.
\<close>

fun Sprintf :: "string \<Rightarrow> string \<Rightarrow> string" where
  "Sprintf (c # d # cs) a =
     (if c = CHR ''%'' \<and> d = CHR ''s'' then a @ cs else c # Sprintf (d # cs) a)"
| "Sprintf cs a = cs"

text \<open>
  \<^verbatim>\<open>strings.Split(path, "/")\<close>: the elements between the separators; a path with \<open>n\<close>
  separators has \<open>n + 1\<close> elements, some of them empty.
\<close>

fun split_path :: "string \<Rightarrow> string list" where
  "split_path [] = [[]]"
| "split_path (c # cs) =
     (if c = CHR ''/'' then [] # split_path cs
      else (case split_path cs of
              [] \<Rightarrow> [[c]]
            | e # es \<Rightarrow> (c # e) # es))"

text \<open>\<^verbatim>\<open>strings.Join(elems, sep)\<close>.\<close>

fun strings_Join :: "string list \<Rightarrow> string \<Rightarrow> string" where
  "strings_Join [] sep = []"
| "strings_Join [e] sep = e"
| "strings_Join (e # es) sep = e @ sep @ strings_Join es sep"

text \<open>
  \<^verbatim>\<open>filepath.Clean\<close> on Unix, element by element. The elements kept so far are \<open>out\<close>.
  An empty element and \<^verbatim>\<open>.\<close> are dropped; \<^verbatim>\<open>..\<close> removes the element before it when
  there is one that is not itself \<^verbatim>\<open>..\<close>, is kept at the start of a path that is not
  rooted, and is dropped at the start of a rooted one; any other element is kept.
\<close>

definition clean_step :: "bool \<Rightarrow> string list \<Rightarrow> string \<Rightarrow> string list" where
  "clean_step rooted out e =
     (if e = [] \<or> e = ''.'' then out
      else if e = ''..'' then
        (if out \<noteq> [] \<and> last out \<noteq> ''..'' then butlast out
         else if \<not> rooted then out @ [''..'']
         else out)
      else out @ [e])"

definition clean_elements :: "string \<Rightarrow> string list" where
  "clean_elements path =
     foldl (clean_step (path \<noteq> [] \<and> hd path = CHR ''/'')) [] (split_path path)"

definition Clean :: "string \<Rightarrow> string" where
  "Clean path =
     (if path = [] then ''.''
      else if hd path = CHR ''/'' then CHR ''/'' # strings_Join (clean_elements path) ''/''
      else if clean_elements path = [] then ''.''
      else strings_Join (clean_elements path) ''/'')"

text \<open>
  \<^verbatim>\<open>filepath.Join\<close>: the elements from the first non-empty one on, joined by the
  separator and cleaned; the empty string when every element is empty.
\<close>

fun filepath_Join :: "string list \<Rightarrow> string" where
  "filepath_Join [] = []"
| "filepath_Join (e # es) =
     (if e \<noteq> [] then Clean (strings_Join (e # es) ''/'') else filepath_Join es)"

text \<open>
  The value of \<^verbatim>\<open>time.Now().UTC()\<close>, by the fields its \<^verbatim>\<open>Date\<close> and \<^verbatim>\<open>Clock\<close> methods
  return, with the nanoseconds within the second.
\<close>

record utc_time =
  year :: int
  month :: nat
  day :: nat
  hour :: nat
  minute :: nat
  second :: nat
  nanosecond :: nat

text \<open>The decimal digit \<^verbatim>\<open>'0' + d\<close> and the decimal digits of a number.\<close>

definition digit :: "nat \<Rightarrow> char" where
  "digit d = char_of (48 + d)"

fun utod :: "nat \<Rightarrow> string" where
  "utod u = (if u < 10 then [digit u] else utod (u div 10) @ [digit (u mod 10)])"

text \<open>
  \<^verbatim>\<open>appendInt\<close> of package \<^verbatim>\<open>time\<close>: a minus sign for a negative number, then zeros up to
  the width, then the digits.
\<close>

definition appendInt :: "int \<Rightarrow> nat \<Rightarrow> string" where
  "appendInt x width =
     (let u = nat \<bar>x\<bar>
      in (if x < 0 then ''-'' else [])
         @ replicate (width - length (utod u)) CHR ''0'' @ utod u)"

text \<open>
  \<^verbatim>\<open>Format("20060102T150405Z")\<close>: the year in four digits, the month, the day, the
  letter T, the hour, the minute, the second, each in two digits, and the letter Z.
\<close>

definition Format :: "utc_time \<Rightarrow> string" where
  "Format t =
     appendInt (year t) 4 @ appendInt (int (month t)) 2 @ appendInt (int (day t)) 2
     @ ''T''
     @ appendInt (int (hour t)) 2 @ appendInt (int (minute t)) 2
     @ appendInt (int (second t)) 2
     @ ''Z''"

subsection \<open>The operating system\<close>

text \<open>
  What a path holds, the errors of a call, and the calls the program makes. An error is
  \<^verbatim>\<open>ENOENT\<close> (the one \<^verbatim>\<open>os.IsNotExist\<close> recognises), \<^verbatim>\<open>EEXIST\<close>, or a fault of the
  environment (no permission, a failing disk, ...).
\<close>

datatype node = Directory nat | Regular | Symlink string

datatype fault = EACCES | EIO | ENOTDIR | ENOSPC | EROFS

datatype errno = ENOENT | EEXIST | Other fault

datatype call =
    MkdirAll string nat
  | Lstat string
  | Mkdir string nat
  | Run string "string list"
  | Remove string
  | SymlinkTo string string

type_synonym filesystem = "string \<rightharpoonup> node"

text \<open>
  The environment of one run: the file system before it, the clock, the faults the
  environment answers a call with, and the exit status of an external command (\<open>None\<close>
  when it cannot be started).
\<close>

record world =
  disk :: filesystem
  clock :: utc_time
  faults :: "call \<Rightarrow> fault option"
  tool :: "string \<Rightarrow> string list \<Rightarrow> nat option"

text \<open>The state a run threads through: the file system and the calls made so far.\<close>

record sys =
  entries :: filesystem
  calls :: "call list"

definition record_call :: "call \<Rightarrow> sys \<Rightarrow> sys" where
  "record_call c s = s\<lparr>calls := calls s @ [c]\<rparr>"

text \<open>
  \<^verbatim>\<open>os.MkdirAll\<close>: nothing to do when the path is a directory, a new directory when the
  path is free, an error when it is a file. The file system of the model is flat: a path
  is a key, the directories above it are not recorded, and \<^verbatim>\<open>..\<close> and links inside a path
  are not resolved. A link at the path itself is followed by the real call, which fails
  when the link leads to no directory; the model takes the link to lead to a directory
  and leaves the failure to the faults of the environment, so every result of the real
  call is a result of the model for some environment.
\<close>

definition os_MkdirAll :: "world \<Rightarrow> string \<Rightarrow> nat \<Rightarrow> sys \<Rightarrow> errno option \<times> sys" where
  "os_MkdirAll w path perm s =
     (let s' = record_call (MkdirAll path perm) s
      in case faults w (MkdirAll path perm) of
           Some f \<Rightarrow> (Some (Other f), s')
         | None \<Rightarrow>
             (case entries s path of
                None \<Rightarrow> (None, s'\<lparr>entries := (entries s)(path \<mapsto> Directory perm)\<rparr>)
              | Some (Directory p) \<Rightarrow> (None, s')
              | Some Regular \<Rightarrow> (Some (Other ENOTDIR), s')
              | Some (Symlink t) \<Rightarrow> (None, s')))"

text \<open>\<^verbatim>\<open>os.Lstat\<close>: what the path holds, without following a link.\<close>

definition os_Lstat :: "world \<Rightarrow> string \<Rightarrow> sys \<Rightarrow> (errno + node) \<times> sys" where
  "os_Lstat w path s =
     (let s' = record_call (Lstat path) s
      in case faults w (Lstat path) of
           Some f \<Rightarrow> (Inl (Other f), s')
         | None \<Rightarrow>
             (case entries s path of
                None \<Rightarrow> (Inl ENOENT, s')
              | Some n \<Rightarrow> (Inr n, s')))"

text \<open>\<^verbatim>\<open>stat.Mode()&os.ModeSymlink != 0\<close>.\<close>

fun ModeSymlink :: "node \<Rightarrow> bool" where
  "ModeSymlink (Symlink t) = True"
| "ModeSymlink n = False"

text \<open>\<^verbatim>\<open>os.Mkdir\<close>: a new directory, an error when the path holds anything.\<close>

definition os_Mkdir :: "world \<Rightarrow> string \<Rightarrow> nat \<Rightarrow> sys \<Rightarrow> errno option \<times> sys" where
  "os_Mkdir w path perm s =
     (let s' = record_call (Mkdir path perm) s
      in case faults w (Mkdir path perm) of
           Some f \<Rightarrow> (Some (Other f), s')
         | None \<Rightarrow>
             (case entries s path of
                None \<Rightarrow> (None, s'\<lparr>entries := (entries s)(path \<mapsto> Directory perm)\<rparr>)
              | Some n \<Rightarrow> (Some EEXIST, s')))"

text \<open>
  \<^verbatim>\<open>exec.Command(name, args...).Run()\<close>: an error (the result \<open>True\<close>) unless the
  command starts and exits with status zero. The command is judged by its exit status only; what it writes is
  below its destination and is not part of the model.
\<close>

definition cmd_Run :: "world \<Rightarrow> string \<Rightarrow> string list \<Rightarrow> sys \<Rightarrow> bool \<times> sys" where
  "cmd_Run w name args s = (tool w name args \<noteq> Some 0, record_call (Run name args) s)"

text \<open>\<^verbatim>\<open>os.Remove\<close>.\<close>

definition os_Remove :: "world \<Rightarrow> string \<Rightarrow> sys \<Rightarrow> errno option \<times> sys" where
  "os_Remove w path s =
     (let s' = record_call (Remove path) s
      in case faults w (Remove path) of
           Some f \<Rightarrow> (Some (Other f), s')
         | None \<Rightarrow>
             (case entries s path of
                None \<Rightarrow> (Some ENOENT, s')
              | Some n \<Rightarrow> (None, s'\<lparr>entries := (entries s)(path := None)\<rparr>)))"

text \<open>\<^verbatim>\<open>os.Symlink(oldname, newname)\<close>: a link at \<open>newname\<close> whose target is \<open>oldname\<close>.\<close>

definition os_Symlink :: "world \<Rightarrow> string \<Rightarrow> string \<Rightarrow> sys \<Rightarrow> errno option \<times> sys" where
  "os_Symlink w oldname newname s =
     (let s' = record_call (SymlinkTo oldname newname) s
      in case faults w (SymlinkTo oldname newname) of
           Some f \<Rightarrow> (Some (Other f), s')
         | None \<Rightarrow>
             (case entries s newname of
                None \<Rightarrow> (None, s'\<lparr>entries := (entries s)(newname \<mapsto> Symlink oldname)\<rparr>)
              | Some n \<Rightarrow> (Some EEXIST, s')))"

text \<open>\<^verbatim>\<open>os.IsNotExist\<close>.\<close>

fun IsNotExist :: "errno \<Rightarrow> bool" where
  "IsNotExist ENOENT = True"
| "IsNotExist e = False"

subsection \<open>The program\<close>

text \<open>
  What \<^verbatim>\<open>flags.Parse(os.Args[1:])\<close> leaves: a request for help, an error, or the values
  of the \<^verbatim>\<open>-exclude\<close> flags in the order given (\<^verbatim>\<open>Set\<close> appends each one) together
  with the positional arguments.
\<close>

datatype parsed = HelpRequested | ParseError | Parsed "string list" "string list"

text \<open>One constructor for each \<^verbatim>\<open>os.Exit(1)\<close> of the source, in its order.\<close>

datatype failure =
    BadFlags
  | BadArgumentCount
  | EmptyRoot
  | EmptySnapshotsDirectory
  | SnapshotsDirectoryNotCreated errno
  | LatestNotSymlink
  | LatestNotInspected errno
  | SnapshotRootNotCreated errno
  | RsyncFailed
  | LatestNotRemoved errno
  | LatestNotUpdated errno

text \<open>
  How a run ends: it returns from \<^verbatim>\<open>main\<close>, it prints the usage, it exits after an
  error, or the runtime panics on an index out of range.
\<close>

datatype outcome = Finished | UsageShown | Aborted failure | IndexOutOfRange

fun exit_status :: "outcome \<Rightarrow> nat" where
  "exit_status Finished = 0"
| "exit_status UsageShown = 0"
| "exit_status (Aborted f) = 1"
| "exit_status IndexOutOfRange = 2"

text \<open>The text each error prints, before the error value where there is one.\<close>

fun diagnostic :: "failure \<Rightarrow> string" where
  "diagnostic BadFlags = ''error:''"
| "diagnostic BadArgumentCount = ''error: invalid number of positional arguments''"
| "diagnostic EmptyRoot = ''error: empty root path''"
| "diagnostic EmptySnapshotsDirectory = ''error: empty snapshots directory path''"
| "diagnostic (SnapshotsDirectoryNotCreated e) = ''error: unable to create snapshots directory:''"
| "diagnostic LatestNotSymlink = ''error: latest backup link path exists but is not a symlink''"
| "diagnostic (LatestNotInspected e) = ''error: unable to inspect latest backup link path:''"
| "diagnostic (SnapshotRootNotCreated e) = ''error: unable to create snapshot root:''"
| "diagnostic RsyncFailed = ''error: rsync execution error:''"
| "diagnostic (LatestNotRemoved e) = ''error: unable to remove latest backup link:''"
| "diagnostic (LatestNotUpdated e) = ''error: unable to update latest backup link:''"

text \<open>
  The error kinds of the specification, by its words: \<^verbatim>\<open>InvalidArgument\<close> is bad or
  missing command-line input, \<^verbatim>\<open>StorageError\<close> a failed create, stat, remove or symlink,
  \<^verbatim>\<open>CorruptState\<close> a latest pointer that is not a symbolic link, \<^verbatim>\<open>TransferError\<close> a
  transfer tool that exits non-zero or does not start.
\<close>

datatype error_kind = InvalidArgument | StorageError | CorruptState | TransferError

fun kind_of :: "failure \<Rightarrow> error_kind" where
  "kind_of BadFlags = InvalidArgument"
| "kind_of BadArgumentCount = InvalidArgument"
| "kind_of EmptyRoot = InvalidArgument"
| "kind_of EmptySnapshotsDirectory = InvalidArgument"
| "kind_of (SnapshotsDirectoryNotCreated e) = StorageError"
| "kind_of LatestNotSymlink = CorruptState"
| "kind_of (LatestNotInspected e) = StorageError"
| "kind_of (SnapshotRootNotCreated e) = StorageError"
| "kind_of RsyncFailed = TransferError"
| "kind_of (LatestNotRemoved e) = StorageError"
| "kind_of (LatestNotUpdated e) = StorageError"

text \<open>
  \<^verbatim>\<open>s[i]\<close> on a string: the byte at the index, or nothing when the index is out of
  range, where the runtime panics.
\<close>

definition index_string :: "string \<Rightarrow> int \<Rightarrow> char option" where
  "index_string s i = (if 0 \<le> i \<and> i < int (length s) then Some (s ! nat i) else None)"

text \<open>
  Lines 126 to 128: \<^verbatim>\<open>if root[len(root)-1] != '/' { root += "/" }\<close>. The result is
  \<open>None\<close> when the index is out of range.
\<close>

definition trailing_slash :: "string \<Rightarrow> string option" where
  "trailing_slash root =
     (case index_string root (int (length root) - 1) of
        None \<Rightarrow> None
      | Some c \<Rightarrow> Some (if c \<noteq> CHR ''/'' then root @ ''/'' else root))"

text \<open>Lines 117 to 119: the loop over the excluded paths.\<close>

fun add_excludes :: "string list \<Rightarrow> string list \<Rightarrow> string list" where
  "add_excludes rsyncArguments [] = rsyncArguments"
| "add_excludes rsyncArguments (p # excludes) =
     add_excludes (rsyncArguments @ [Sprintf rsyncExcludeFlagFormat p]) excludes"

text \<open>Lines 153 to 160: remove the link, then create it anew.\<close>

definition link_latest :: "world \<Rightarrow> string \<Rightarrow> string \<Rightarrow> sys \<Rightarrow> outcome \<times> sys" where
  "link_latest w timestamp lastestSnapshotLink s =
     (case os_Symlink w timestamp lastestSnapshotLink s of
        (Some err, s') \<Rightarrow> (Aborted (LatestNotUpdated err), s')
      | (None, s') \<Rightarrow> (Finished, s'))"

definition update_link :: "world \<Rightarrow> string \<Rightarrow> string \<Rightarrow> sys \<Rightarrow> outcome \<times> sys" where
  "update_link w timestamp lastestSnapshotLink s =
     (case os_Remove w lastestSnapshotLink s of
        (Some err, s') \<Rightarrow>
          if \<not> IsNotExist err then (Aborted (LatestNotRemoved err), s')
          else link_latest w timestamp lastestSnapshotLink s'
      | (None, s') \<Rightarrow> link_latest w timestamp lastestSnapshotLink s')"

text \<open>
  Lines 116 to 151: the excluded paths, the root with its trailing slash, the new
  snapshot directory, the destination argument, the run of \<^verbatim>\<open>rsync\<close>.
\<close>

definition snapshot :: "world \<Rightarrow> string list \<Rightarrow> string \<Rightarrow> string \<Rightarrow> string \<Rightarrow> string list \<Rightarrow> sys
    \<Rightarrow> outcome \<times> sys" where
  "snapshot w excludes root snapshotsDirectory lastestSnapshotLink rsyncArguments s =
     (let rsyncArguments1 = add_excludes rsyncArguments excludes
      in case trailing_slash root of
           None \<Rightarrow> (IndexOutOfRange, s)
         | Some root' \<Rightarrow>
             (let rsyncArguments2 = rsyncArguments1 @ [root'];
                  timestamp = Format (clock w);
                  snapshot = filepath_Join [snapshotsDirectory, timestamp]
              in case os_Mkdir w snapshot snapshotPermissions s of
                   (Some err, s1) \<Rightarrow> (Aborted (SnapshotRootNotCreated err), s1)
                 | (None, s1) \<Rightarrow>
                     (let rsyncArguments3 = rsyncArguments2 @ [snapshot]
                      in case cmd_Run w rsyncCommand rsyncArguments3 s1 of
                           (failed, s2) \<Rightarrow>
                             if failed then (Aborted RsyncFailed, s2)
                             else update_link w timestamp lastestSnapshotLink s2)))"

text \<open>Lines 97 to 114: the fixed arguments and the look at the \<^verbatim>\<open>Latest\<close> link.\<close>

definition inspect :: "world \<Rightarrow> string list \<Rightarrow> string \<Rightarrow> string \<Rightarrow> sys \<Rightarrow> outcome \<times> sys" where
  "inspect w excludes root snapshotsDirectory s =
     (let rsyncArguments = [rsyncArchiveFlags, rsyncDisableSpecials, rsyncDisableDevices];
          lastestSnapshotLink = filepath_Join [snapshotsDirectory, latestSnapshotLinkName]
      in case os_Lstat w lastestSnapshotLink s of
           (Inr stat, s1) \<Rightarrow>
             if \<not> ModeSymlink stat then (Aborted LatestNotSymlink, s1)
             else snapshot w excludes root snapshotsDirectory lastestSnapshotLink
                    (rsyncArguments @ [Sprintf rsyncBaseFlagFormat lastestSnapshotLink]) s1
         | (Inl err, s1) \<Rightarrow>
             if \<not> IsNotExist err then (Aborted (LatestNotInspected err), s1)
             else snapshot w excludes root snapshotsDirectory lastestSnapshotLink
                    rsyncArguments s1)"

text \<open>Lines 60 to 95, and from there the rest of \<^verbatim>\<open>main\<close>.\<close>

definition main :: "world \<Rightarrow> parsed \<Rightarrow> outcome \<times> sys" where
  "main w cmdline =
     (let s = \<lparr>entries = disk w, calls = []\<rparr>
      in case cmdline of
           HelpRequested \<Rightarrow> (UsageShown, s)
         | ParseError \<Rightarrow> (Aborted BadFlags, s)
         | Parsed excludes arguments \<Rightarrow>
             if length arguments \<noteq> 2 then (Aborted BadArgumentCount, s)
             else if arguments ! 0 = [] then (Aborted EmptyRoot, s)
             else if arguments ! 1 = [] then (Aborted EmptySnapshotsDirectory, s)
             else (case os_MkdirAll w (arguments ! 1) snapshotPermissions s of
                     (Some err, s1) \<Rightarrow> (Aborted (SnapshotsDirectoryNotCreated err), s1)
                   | (None, s1) \<Rightarrow> inspect w excludes (arguments ! 0) (arguments ! 1) s1))"

subsection \<open>Example runs\<close>

definition noon :: utc_time where
  "noon = \<lparr>year = 2024, month = 3, day = 9, hour = 12, minute = 0, second = 7,
     nanosecond = 0\<rparr>"

text \<open>An empty disk, no faults, and a transfer tool that succeeds.\<close>

definition fresh :: world where
  "fresh = \<lparr>disk = Map.empty, clock = noon, faults = (\<lambda>c. None),
     tool = (\<lambda>name args. Some 0)\<rparr>"

subsection \<open>Notions the properties are stated with\<close>

text \<open>
  A name that is one path element and survives cleaning: not empty, not \<^verbatim>\<open>.\<close>, not
  \<^verbatim>\<open>..\<close>, and without a separator.
\<close>

definition simple_name :: "string \<Rightarrow> bool" where
  "simple_name n = (n \<noteq> [] \<and> n \<noteq> ''.'' \<and> n \<noteq> ''..'' \<and> CHR ''/'' \<notin> set n)"

text \<open>
  What \<^verbatim>\<open>filepath.Join\<close> puts in front of a simple name joined to the directory \<open>d\<close>:
  the cleaned directory and a separator.
\<close>

definition join_dir :: "string \<Rightarrow> string" where
  "join_dir d =
     (if hd d = CHR ''/'' then
        (if clean_elements d = [] then ''/''
         else CHR ''/'' # strings_Join (clean_elements d) ''/'' @ ''/'')
      else
        (if clean_elements d = [] then []
         else strings_Join (clean_elements d) ''/'' @ ''/''))"

text \<open>The two paths a run works with: the link and the new snapshot.\<close>

abbreviation latest_of :: "string \<Rightarrow> string" where
  "latest_of d \<equiv> filepath_Join [d, latestSnapshotLinkName]"

abbreviation snapshot_of :: "world \<Rightarrow> string \<Rightarrow> string" where
  "snapshot_of w d \<equiv> filepath_Join [d, Format (clock w)]"

text \<open>The root with its trailing separator.\<close>

definition with_slash :: "string \<Rightarrow> string" where
  "with_slash root = (if last root = CHR ''/'' then root else root @ ''/'')"

text \<open>
  The argument list in the words of the specification: the fixed prefix, the base flag
  when a base was found, one exclusion flag for each excluded path in the order given,
  the source, the destination. The base is the path of the latest pointer when that is
  a symbolic link.
\<close>

definition hardlink_base :: "filesystem \<Rightarrow> string \<Rightarrow> string option" where
  "hardlink_base fs link = (case fs link of Some (Symlink t) \<Rightarrow> Some link | _ \<Rightarrow> None)"

definition spec_arguments :: "string option \<Rightarrow> string list \<Rightarrow> string \<Rightarrow> string \<Rightarrow> string list" where
  "spec_arguments base excludes source destination =
     [''-aPh'', ''--no-specials'', ''--no-devices'']
     @ (case base of None \<Rightarrow> [] | Some b \<Rightarrow> [''--link-dest='' @ b])
     @ map (\<lambda>p. ''--exclude='' @ p) excludes
     @ [source, destination]"

text \<open>
  Nothing before the transfer fails: the arguments are not empty, the snapshots directory
  exists or can be made, the latest pointer is absent or a symbolic link, and the new
  snapshot directory can be made under a name that is free.
\<close>

definition reaches_transfer :: "world \<Rightarrow> string \<Rightarrow> string \<Rightarrow> bool" where
  "reaches_transfer w root d =
     (root \<noteq> [] \<and> d \<noteq> []
      \<and> faults w (MkdirAll d snapshotPermissions) = None \<and> disk w d \<noteq> Some Regular
      \<and> faults w (Lstat (latest_of d)) = None
      \<and> (case disk w (latest_of d) of None \<Rightarrow> True | Some n \<Rightarrow> ModeSymlink n)
      \<and> faults w (Mkdir (snapshot_of w d) snapshotPermissions) = None
      \<and> disk w (snapshot_of w d) = None)"

text \<open>
  The state of a run at the moment \<^verbatim>\<open>rsync\<close> has been run with the arguments \<open>a\<close>: the
  snapshots directory and the new snapshot directory exist, four calls are made.
\<close>

definition at_transfer :: "world \<Rightarrow> string \<Rightarrow> string list \<Rightarrow> sys" where
  "at_transfer w d a =
     \<lparr>entries = (if disk w d = None then (disk w)(d \<mapsto> Directory snapshotPermissions)
                 else disk w)(snapshot_of w d \<mapsto> Directory snapshotPermissions),
      calls = [MkdirAll d snapshotPermissions, Lstat (latest_of d),
               Mkdir (snapshot_of w d) snapshotPermissions, Run rsyncCommand a]\<rparr>"

text \<open>Lines 148 to 160 as one step: the end of a run from the result of the transfer on.\<close>

definition finish :: "world \<Rightarrow> string \<Rightarrow> string list \<Rightarrow> sys \<Rightarrow> outcome \<times> sys" where
  "finish w d a s =
     (if tool w rsyncCommand a \<noteq> Some 0 then (Aborted RsyncFailed, s)
      else update_link w (Format (clock w)) (latest_of d) s)"

text \<open>
  A disk with one earlier snapshot and the link to it, and the same with a transfer tool
  that fails.
\<close>

definition with_latest :: world where
  "with_latest = fresh\<lparr>disk :=
     [''/snaps'' \<mapsto> Directory 448,
      ''/snaps/20240101T000000Z'' \<mapsto> Directory 448,
      ''/snaps/Latest'' \<mapsto> Symlink ''20240101T000000Z'']\<rparr>"

definition failing :: world where
  "failing = with_latest\<lparr>tool := (\<lambda>name args. Some 23)\<rparr>"

text \<open>
  A disk where \<^verbatim>\<open>Latest\<close> is a regular file, and a disk where the name of the new snapshot
  is taken.
\<close>

definition stray :: world where
  "stray = fresh\<lparr>disk := [''/snaps'' \<mapsto> Directory 448, ''/snaps/Latest'' \<mapsto> Regular]\<rparr>"


text \<open>A disk where \<^verbatim>\<open>Latest\<close> is a link to a snapshot that is not there.\<close>

definition dangling :: world where
  "dangling = fresh\<lparr>disk :=
     [''/snaps'' \<mapsto> Directory 448, ''/snaps/Latest'' \<mapsto> Symlink ''gone'']\<rparr>"

text \<open>The disk with the earlier snapshot, where the link cannot be removed.\<close>

definition locked :: world where
  "locked = with_latest\<lparr>faults :=
     (\<lambda>c. if c = Remove ''/snaps/Latest'' then Some EACCES else None)\<rparr>"

subsection \<open>Instants and identifiers\<close>

text \<open>
  The fields of an instant down to the second, the order of two instants by the second
  they fall in, and the order of two instants. The fields of a UTC time are compared
  from the year down: this is the order in time, as UTC in Go has no leap seconds.
\<close>

definition to_the_second :: "utc_time \<Rightarrow> int \<times> nat \<times> nat \<times> nat \<times> nat \<times> nat" where
  "to_the_second t = (year t, month t, day t, hour t, minute t, second t)"

definition earlier_second :: "utc_time \<Rightarrow> utc_time \<Rightarrow> bool" where
  "earlier_second a b =
     (year a < year b \<or> year a = year b \<and>
       (month a < month b \<or> month a = month b \<and>
         (day a < day b \<or> day a = day b \<and>
           (hour a < hour b \<or> hour a = hour b \<and>
             (minute a < minute b \<or> minute a = minute b \<and> second a < second b)))))"

definition earlier :: "utc_time \<Rightarrow> utc_time \<Rightarrow> bool" where
  "earlier a b =
     (earlier_second a b \<or> to_the_second a = to_the_second b \<and> nanosecond a < nanosecond b)"

text \<open>The ranges of the fields of a time.\<close>

definition valid_time :: "utc_time \<Rightarrow> bool" where
  "valid_time t =
     (1 \<le> month t \<and> month t \<le> 12 \<and> 1 \<le> day t \<and> day t \<le> 31 \<and> hour t \<le> 23
      \<and> minute t \<le> 59 \<and> second t \<le> 59 \<and> nanosecond t < 1000000000)"

text \<open>
  The portable filename characters of POSIX: the digits, the letters, the period, the
  underscore and the hyphen.
\<close>

definition portable_char :: "char \<Rightarrow> bool" where
  "portable_char c =
     (let n = (of_char c :: nat)
      in 48 \<le> n \<and> n \<le> 57 \<or> 65 \<le> n \<and> n \<le> 90 \<or> 97 \<le> n \<and> n \<le> 122
         \<or> c = CHR ''.'' \<or> c = CHR ''_'' \<or> c = CHR ''-'')"

text \<open>A number in exactly \<open>w\<close> decimal digits, the leading ones zero.\<close>

fun zero_padded :: "nat \<Rightarrow> nat \<Rightarrow> string" where
  "zero_padded 0 n = []"
| "zero_padded (Suc w) n = zero_padded w (n div 10) @ [digit (n mod 10)]"

text \<open>
  Instants to compare: a second after noon, half a second after noon, the last
  nanosecond of the year 9999 and the first of the year 10000.
\<close>

definition a_second_later :: utc_time where
  "a_second_later = noon\<lparr>second := 8\<rparr>"

definition half_a_second_later :: utc_time where
  "half_a_second_later = noon\<lparr>nanosecond := 500000000\<rparr>"

definition last_of_9999 :: utc_time where
  "last_of_9999 = \<lparr>year = 9999, month = 12, day = 31, hour = 23, minute = 59, second = 59,
     nanosecond = 999999999\<rparr>"

definition first_of_10000 :: utc_time where
  "first_of_10000 = \<lparr>year = 10000, month = 1, day = 1, hour = 0, minute = 0, second = 0,
     nanosecond = 0\<rparr>"

section \<open>Properties\<close>

declare utod.simps [simp del]

declare filepath_Join.simps [simp del]

subsection \<open>Joined paths\<close>

lemma split_path_not_Nil: "split_path p \<noteq> []"
  by (induction p) (auto split: list.splits)

lemma split_path_no_slash: "CHR ''/'' \<notin> set n \<Longrightarrow> split_path n = [n]"
  by (induction n) auto

lemma split_path_append:
  "CHR ''/'' \<notin> set n \<Longrightarrow> split_path (p @ CHR ''/'' # n) = split_path p @ [n]"
proof (induction p)
  case Nil
  then show ?case by (simp add: split_path_no_slash)
next
  case (Cons c p)
  then show ?case
    using split_path_not_Nil [of p] by (cases "split_path p") auto
qed

lemma clean_step_simple: "simple_name n \<Longrightarrow> clean_step r out n = out @ [n]"
  by (simp add: clean_step_def simple_name_def)

lemma clean_elements_append:
  assumes "d \<noteq> []" and "simple_name n"
  shows "clean_elements (d @ CHR ''/'' # n) = clean_elements d @ [n]"
proof -
  have "CHR ''/'' \<notin> set n" using assms(2) by (simp add: simple_name_def)
  then have "split_path (d @ CHR ''/'' # n) = split_path d @ [n]"
    by (rule split_path_append)
  moreover have "hd (d @ CHR ''/'' # n) = hd d" using assms(1) by simp
  ultimately show ?thesis
    using assms by (simp add: clean_elements_def clean_step_simple)
qed

lemma strings_Join_snoc:
  "strings_Join (out @ [n]) sep = (if out = [] then n else strings_Join out sep @ sep @ n)"
  by (induction out sep rule: strings_Join.induct) auto

lemma filepath_Join_simple:
  assumes "d \<noteq> []" and "simple_name n"
  shows "filepath_Join [d, n] = join_dir d @ n"
proof -
  have "filepath_Join [d, n] = Clean (d @ CHR ''/'' # n)"
    using assms(1) by (simp add: filepath_Join.simps)
  also have "\<dots> = join_dir d @ n"
    using assms by (simp add: Clean_def clean_elements_append strings_Join_snoc join_dir_def)
  finally show ?thesis .
qed

lemma filepath_Join_inj:
  "d \<noteq> [] \<Longrightarrow> simple_name a \<Longrightarrow> simple_name b \<Longrightarrow>
   (filepath_Join [d, a] = filepath_Join [d, b]) = (a = b)"
  by (simp add: filepath_Join_simple)

lemma of_char_digit: "d < 10 \<Longrightarrow> of_char (digit d) = 48 + d"
  by (simp add: digit_def)

lemma utod_digits: "c \<in> set (utod u) \<Longrightarrow> \<exists>d<10. c = digit d"
proof (induction u rule: utod.induct)
  case (1 u)
  show ?case
  proof (cases "u < 10")
    case True
    with "1.prems" show ?thesis by (auto simp: utod.simps [of u])
  next
    case False
    with "1.prems" have "c \<in> set (utod (u div 10)) \<or> c = digit (u mod 10)"
      by (auto simp: utod.simps [of u])
    then show ?thesis
    proof
      assume "c \<in> set (utod (u div 10))"
      with False "1.IH" show ?thesis by blast
    next
      assume "c = digit (u mod 10)"
      moreover have "u mod 10 < 10" by simp
      ultimately show ?thesis by blast
    qed
  qed
qed

lemma split_path_elements: "e \<in> set (split_path p) \<Longrightarrow> CHR ''/'' \<notin> set e"
proof (induction p arbitrary: e)
  case Nil
  then show ?case by simp
next
  case (Cons c p)
  then show ?case
    using split_path_not_Nil [of p]
    by (cases "split_path p") (auto split: if_splits)
qed

lemma clean_step_elements:
  assumes "\<forall>x\<in>set out. CHR ''/'' \<notin> set x" and "CHR ''/'' \<notin> set e"
  shows "\<forall>x\<in>set (clean_step r out e). CHR ''/'' \<notin> set x"
  using assms by (auto simp: clean_step_def dest: in_set_butlastD)

lemma foldl_clean_step_elements:
  assumes "\<forall>x\<in>set out. CHR ''/'' \<notin> set x" and "\<forall>e\<in>set es. CHR ''/'' \<notin> set e"
  shows "\<forall>x\<in>set (foldl (clean_step r) out es). CHR ''/'' \<notin> set x"
  using assms
proof (induction es arbitrary: out)
  case Nil
  then show ?case by simp
next
  case (Cons e es)
  have "\<forall>x\<in>set (clean_step r out e). CHR ''/'' \<notin> set x"
    using Cons.prems by (intro clean_step_elements) auto
  with Cons show ?case by simp
qed

lemma clean_elements_no_slash: "x \<in> set (clean_elements d) \<Longrightarrow> CHR ''/'' \<notin> set x"
  using foldl_clean_step_elements [of "[]" "split_path d"] split_path_elements
  by (auto simp: clean_elements_def)

lemma split_path_Cons_no_slash:
  "CHR ''/'' \<notin> set e \<Longrightarrow> split_path (e @ CHR ''/'' # p) = e # split_path p"
  by (induction e) auto

lemma split_strings_Join:
  assumes "es \<noteq> []" and "\<forall>e\<in>set es. CHR ''/'' \<notin> set e"
  shows "split_path (strings_Join es ''/'') = es"
  using assms
proof (induction es "''/''" rule: strings_Join.induct)
  case 1
  then show ?case by simp
next
  case (2 e)
  then show ?case by (simp add: split_path_no_slash)
next
  case (3 e v va)
  then show ?case by (simp add: split_path_Cons_no_slash)
qed

lemma clean_step_empty: "clean_step r out [] = out"
  by (simp add: clean_step_def)

lemma foldl_clean_no_fixpoint:
  assumes "simple_name n"
  shows "es \<noteq> foldl (clean_step r) [] es @ [n]"
proof (induction es rule: rev_induct)
  case Nil
  then show ?case by simp
next
  case (snoc x xs)
  show ?case
  proof
    assume a: "xs @ [x] = foldl (clean_step r) [] (xs @ [x]) @ [n]"
    then have "x = n" by simp
    with a assms have "xs = foldl (clean_step r) [] xs @ [n]"
      by (simp add: clean_step_simple)
    with snoc show False by simp
  qed
qed

lemma filepath_Join_neq_dir:
  assumes "d \<noteq> []" and "simple_name n"
  shows "filepath_Join [d, n] \<noteq> d"
proof
  assume "filepath_Join [d, n] = d"
  then have eq: "join_dir d @ n = d" using assms by (simp add: filepath_Join_simple)
  let ?r = "hd d = CHR ''/''"
  let ?E = "clean_elements d"
  have n: "CHR ''/'' \<notin> set n" "n \<noteq> []" using assms(2) by (simp_all add: simple_name_def)
  have E: "?E = foldl (clean_step ?r) [] (split_path d)"
    using assms(1) by (simp add: clean_elements_def)
  show False
  proof (cases "?E = []")
    case True
    show False
    proof (cases ?r)
      case True
      with \<open>?E = []\<close> eq have "d = CHR ''/'' # n" by (simp add: join_dir_def)
      then have "split_path d = [[], n]" using n by (simp add: split_path_no_slash)
      with E assms(2) have "?E = [n]" by (simp add: clean_step_simple clean_step_empty)
      with \<open>?E = []\<close> show False by simp
    next
      case False
      with \<open>?E = []\<close> eq have "d = n" by (simp add: join_dir_def)
      then have "split_path d = [n]" using n by (simp add: split_path_no_slash)
      with E assms(2) have "?E = [n]" by (simp add: clean_step_simple)
      with \<open>?E = []\<close> show False by simp
    qed
  next
    case False
    have sl: "\<forall>e\<in>set ?E. CHR ''/'' \<notin> set e" using clean_elements_no_slash by blast
    have sp: "split_path (strings_Join ?E ''/'') = ?E"
      using False sl by (rule split_strings_Join)
    have "?E = foldl (clean_step ?r) [] ?E @ [n]"
    proof (cases ?r)
      case True
      with False eq have "d = (CHR ''/'' # strings_Join ?E ''/'') @ CHR ''/'' # n"
        by (simp add: join_dir_def)
      then have "split_path d = split_path (CHR ''/'' # strings_Join ?E ''/'') @ [n]"
        using n split_path_append by metis
      then have "split_path d = ([] # ?E) @ [n]" using sp by simp
      with E assms(2) show ?thesis
        by (simp add: clean_step_simple clean_step_empty)
    next
      case f: False
      with False eq have "d = strings_Join ?E ''/'' @ CHR ''/'' # n"
        by (simp add: join_dir_def)
      then have "split_path d = split_path (strings_Join ?E ''/'') @ [n]"
        using n split_path_append by metis
      then have "split_path d = ?E @ [n]" using sp by simp
      with E assms(2) show ?thesis by (simp add: clean_step_simple)
    qed
    with foldl_clean_no_fixpoint [OF assms(2)] show False by blast
  qed
qed

subsection \<open>The timestamp as a name\<close>

lemma digit_neq_slash: "d < 10 \<Longrightarrow> digit d \<noteq> CHR ''/''"
proof
  assume "d < 10" and "digit d = CHR ''/''"
  then have "(of_char (digit d) :: nat) = of_char CHR ''/''" by simp
  with \<open>d < 10\<close> show False by (simp add: of_char_digit)
qed

lemma appendInt_chars:
  assumes "c \<in> set (appendInt x n)"
  shows "c = CHR ''-'' \<or> c = CHR ''0'' \<or> (\<exists>d<10. c = digit d)"
  using assms utod_digits [of c "nat \<bar>x\<bar>"]
  by (auto simp: appendInt_def Let_def split: if_splits)

lemma appendInt_no_slash: "CHR ''/'' \<notin> set (appendInt x n)"
proof
  assume "CHR ''/'' \<in> set (appendInt x n)"
  then obtain d where "d < 10" and "CHR ''/'' = digit d"
    using appendInt_chars [of "CHR ''/''" x n] by auto
  then show False using digit_neq_slash [of d] by simp
qed

lemma Format_no_slash: "CHR ''/'' \<notin> set (Format t)"
  by (simp add: Format_def appendInt_no_slash)

lemma Format_last: "last (Format t) = CHR ''Z''"
  by (simp add: Format_def)

lemma Format_simple: "simple_name (Format t)"
proof -
  have "Format t \<noteq> []" by (simp add: Format_def)
  moreover have "Format t \<noteq> ''.''" using Format_last [of t] by auto
  moreover have "Format t \<noteq> ''..''" using Format_last [of t] by auto
  ultimately show ?thesis by (simp add: simple_name_def Format_no_slash)
qed

lemma Latest_simple: "simple_name latestSnapshotLinkName"
  by (simp add: simple_name_def latestSnapshotLinkName_def)

lemma Format_neq_Latest: "Format t \<noteq> latestSnapshotLinkName"
  using Format_last [of t] by (auto simp: latestSnapshotLinkName_def)

lemma snapshot_neq_latest:
  "d \<noteq> [] \<Longrightarrow> filepath_Join [d, Format t] \<noteq> filepath_Join [d, latestSnapshotLinkName]"
  by (simp add: filepath_Join_inj Format_simple Latest_simple Format_neq_Latest)

lemma latest_neq_dir: "d \<noteq> [] \<Longrightarrow> latest_of d \<noteq> d"
  by (simp add: filepath_Join_neq_dir Latest_simple)

lemma snapshot_neq_dir: "d \<noteq> [] \<Longrightarrow> filepath_Join [d, Format t] \<noteq> d"
  by (simp add: filepath_Join_neq_dir Format_simple)

subsection \<open>The trailing slash of the root\<close>

lemma index_last:
  "root \<noteq> [] \<Longrightarrow> index_string root (int (length root) - 1) = Some (last root)"
  by (simp add: index_string_def last_conv_nth nat_diff_distrib' of_nat_diff)

lemma trailing_slash_eq: "root \<noteq> [] \<Longrightarrow> trailing_slash root = Some (with_slash root)"
  by (simp add: trailing_slash_def index_last with_slash_def)

lemma trailing_slash_None: "(trailing_slash root = None) = (root = [])"
  by (cases "root = []") (simp_all add: trailing_slash_def index_last index_string_def)

text \<open>
  C7. A root that is not empty is normalized to a string that ends with the separator:
  the separator is appended when the root does not end with it, the root is left as it
  is when it does, and normalizing the result again changes nothing.
\<close>

theorem trailing_slash_normalizes:
  assumes "root \<noteq> []"
  shows "\<exists>r. trailing_slash root = Some r \<and> last r = CHR ''/''
    \<and> (last root \<noteq> CHR ''/'' \<longrightarrow> r = root @ ''/'')
    \<and> (last root = CHR ''/'' \<longrightarrow> r = root)
    \<and> trailing_slash r = Some r"
  using assms by (simp add: trailing_slash_eq with_slash_def)

theorem trailing_slash_normalizes_witness:
  "trailing_slash ''/data'' = Some ''/data/'' \<and> trailing_slash ''/data/'' = Some ''/data/''"
proof -
  have h: "''/data'' \<noteq> []" by simp
  have k: "''/data/'' \<noteq> []" by simp
  show ?thesis
    using trailing_slash_normalizes [OF h] trailing_slash_normalizes [OF k] by auto
qed

subsection \<open>No index out of range\<close>

lemma link_latest_no_panic: "fst (link_latest w t l s) \<noteq> IndexOutOfRange"
  by (cases "os_Symlink w t l s"; cases "fst (os_Symlink w t l s)")
     (simp_all add: link_latest_def)

lemma update_link_no_panic: "fst (update_link w t l s) \<noteq> IndexOutOfRange"
  by (cases "os_Remove w l s"; cases "fst (os_Remove w l s)")
     (simp_all add: update_link_def link_latest_no_panic)

lemma snapshot_no_panic:
  assumes "root \<noteq> []"
  shows "fst (snapshot w ex root d l a s) \<noteq> IndexOutOfRange"
proof -
  obtain r where r: "trailing_slash root = Some r"
    using assms by (simp add: trailing_slash_eq)
  obtain e s1 where
    m: "os_Mkdir w (filepath_Join [d, Format (clock w)]) snapshotPermissions s = (e, s1)"
    by (cases "os_Mkdir w (filepath_Join [d, Format (clock w)]) snapshotPermissions s")
  show ?thesis
  proof (cases e)
    case None
    then show ?thesis
      by (simp add: snapshot_def r m Let_def cmd_Run_def update_link_no_panic)
  next
    case (Some err)
    then show ?thesis by (simp add: snapshot_def r m Let_def)
  qed
qed

lemma inspect_no_panic:
  assumes "root \<noteq> []"
  shows "fst (inspect w ex root d s) \<noteq> IndexOutOfRange"
proof -
  obtain r s1 where
    l: "os_Lstat w (filepath_Join [d, latestSnapshotLinkName]) s = (r, s1)"
    by (cases "os_Lstat w (filepath_Join [d, latestSnapshotLinkName]) s")
  show ?thesis
    using assms by (cases r) (simp_all add: inspect_def l Let_def snapshot_no_panic)
qed

text \<open>
  C10. The index \<^verbatim>\<open>len(root)-1\<close> is out of range for the empty root only, and no run
  ends with an index out of range: the empty root makes the run exit before the
  normalization is reached.
\<close>

theorem index_in_bounds:
  "(trailing_slash root = None) = (root = [])
   \<and> fst (main w cmdline) \<noteq> IndexOutOfRange
   \<and> fst (main w (Parsed excludes [[], d])) = Aborted EmptyRoot"
proof -
  have "fst (main w cmdline) \<noteq> IndexOutOfRange"
  proof (cases cmdline)
    case (Parsed ex arguments)
    show ?thesis
    proof (cases "length arguments = 2")
      case True
      then obtain r d' where a: "arguments = [r, d']"
        by (cases arguments; cases "tl arguments") auto
      obtain e s1 where m:
        "os_MkdirAll w d' snapshotPermissions \<lparr>entries = disk w, calls = []\<rparr> = (e, s1)"
        by (cases "os_MkdirAll w d' snapshotPermissions \<lparr>entries = disk w, calls = []\<rparr>")
      show ?thesis
        by (cases e) (simp_all add: Parsed a main_def m Let_def inspect_no_panic)
    next
      case False
      then show ?thesis by (simp add: Parsed main_def)
    qed
  qed (simp_all add: main_def)
  then show ?thesis by (simp add: trailing_slash_None main_def)
qed

subsection \<open>The stages of a run\<close>

lemma add_excludes_map:
  "add_excludes args ex = args @ map (Sprintf rsyncExcludeFlagFormat) ex"
  by (induction ex arbitrary: args) simp_all

lemma update_link_eq:
  "update_link w t l s0 =
     (case faults w (Remove l) of
        Some f \<Rightarrow> (Aborted (LatestNotRemoved (Other f)), s0\<lparr>calls := calls s0 @ [Remove l]\<rparr>)
      | None \<Rightarrow>
          (case faults w (SymlinkTo t l) of
             Some f \<Rightarrow>
               (Aborted (LatestNotUpdated (Other f)),
                s0\<lparr>entries := (entries s0)(l := None),
                    calls := calls s0 @ [Remove l, SymlinkTo t l]\<rparr>)
           | None \<Rightarrow>
               (Finished,
                s0\<lparr>entries := (entries s0)(l \<mapsto> Symlink t),
                    calls := calls s0 @ [Remove l, SymlinkTo t l]\<rparr>)))"
proof (cases "entries s0 l")
  case None
  then have "(entries s0)(l := None) = entries s0" by auto
  with None show ?thesis
    by (simp add: update_link_def link_latest_def os_Remove_def os_Symlink_def
        record_call_def Let_def split: option.splits)
next
  case (Some n)
  then show ?thesis
    by (simp add: update_link_def link_latest_def os_Remove_def os_Symlink_def
        record_call_def Let_def split: option.splits)
qed

lemma update_link_calls:
  "calls (snd (update_link w t l s0)) =
     calls s0 @ (if faults w (Remove l) = None then [Remove l, SymlinkTo t l] else [Remove l])"
  by (simp add: update_link_eq split: option.splits)

lemma finish_calls:
  "calls (snd (finish w d a s)) =
     calls s @ (if tool w rsyncCommand a \<noteq> Some 0 then []
                else if faults w (Remove (latest_of d)) = None
                  then [Remove (latest_of d), SymlinkTo (Format (clock w)) (latest_of d)]
                else [Remove (latest_of d)])"
  by (simp add: finish_def update_link_calls)

lemma snapshot_eq:
  assumes "root \<noteq> []"
  shows "snapshot w ex root d (latest_of d) args s =
     (case faults w (Mkdir (snapshot_of w d) snapshotPermissions) of
        Some f \<Rightarrow>
          (Aborted (SnapshotRootNotCreated (Other f)),
           s\<lparr>calls := calls s @ [Mkdir (snapshot_of w d) snapshotPermissions]\<rparr>)
      | None \<Rightarrow>
          (case entries s (snapshot_of w d) of
             Some n \<Rightarrow>
               (Aborted (SnapshotRootNotCreated EEXIST),
                s\<lparr>calls := calls s @ [Mkdir (snapshot_of w d) snapshotPermissions]\<rparr>)
           | None \<Rightarrow>
               finish w d
                 (args @ map (Sprintf rsyncExcludeFlagFormat) ex
                    @ [with_slash root, snapshot_of w d])
                 (s\<lparr>entries := (entries s)(snapshot_of w d \<mapsto> Directory snapshotPermissions),
                    calls := calls s @ [Mkdir (snapshot_of w d) snapshotPermissions,
                      Run rsyncCommand
                       (args @ map (Sprintf rsyncExcludeFlagFormat) ex
                        @ [with_slash root, snapshot_of w d])]\<rparr>)))"
  using assms
  by (simp add: snapshot_def os_Mkdir_def cmd_Run_def record_call_def Let_def finish_def
      trailing_slash_eq add_excludes_map split: option.splits)

lemma inspect_eq:
  "inspect w ex root d s =
     (case faults w (Lstat (latest_of d)) of
        Some f \<Rightarrow>
          (Aborted (LatestNotInspected (Other f)), s\<lparr>calls := calls s @ [Lstat (latest_of d)]\<rparr>)
      | None \<Rightarrow>
          (case entries s (latest_of d) of
             None \<Rightarrow>
               snapshot w ex root d (latest_of d)
                 [rsyncArchiveFlags, rsyncDisableSpecials, rsyncDisableDevices]
                 (s\<lparr>calls := calls s @ [Lstat (latest_of d)]\<rparr>)
           | Some (Symlink t) \<Rightarrow>
               snapshot w ex root d (latest_of d)
                 [rsyncArchiveFlags, rsyncDisableSpecials, rsyncDisableDevices,
                  Sprintf rsyncBaseFlagFormat (latest_of d)]
                 (s\<lparr>calls := calls s @ [Lstat (latest_of d)]\<rparr>)
           | Some n \<Rightarrow>
               (Aborted LatestNotSymlink, s\<lparr>calls := calls s @ [Lstat (latest_of d)]\<rparr>)))"
  by (simp add: inspect_def os_Lstat_def record_call_def Let_def
      split: option.splits node.splits)

lemma main_eq:
  assumes "root \<noteq> []" and "d \<noteq> []"
  shows "main w (Parsed ex [root, d]) =
     (case faults w (MkdirAll d snapshotPermissions) of
        Some f \<Rightarrow>
          (Aborted (SnapshotsDirectoryNotCreated (Other f)),
           \<lparr>entries = disk w, calls = [MkdirAll d snapshotPermissions]\<rparr>)
      | None \<Rightarrow>
          (case disk w d of
             None \<Rightarrow>
               inspect w ex root d
                 \<lparr>entries = (disk w)(d \<mapsto> Directory snapshotPermissions),
                  calls = [MkdirAll d snapshotPermissions]\<rparr>
           | Some Regular \<Rightarrow>
               (Aborted (SnapshotsDirectoryNotCreated (Other ENOTDIR)),
                \<lparr>entries = disk w, calls = [MkdirAll d snapshotPermissions]\<rparr>)
           | Some n \<Rightarrow>
               inspect w ex root d
                 \<lparr>entries = disk w, calls = [MkdirAll d snapshotPermissions]\<rparr>))"
  using assms
  by (simp add: main_def os_MkdirAll_def record_call_def Let_def
      split: option.splits node.splits)

lemma main_invalid:
  "root = [] \<or> d = [] \<Longrightarrow> calls (snd (main w (Parsed ex [root, d]))) = []"
  by (auto simp: main_def Let_def)

lemma snapshot_reach:
  assumes "root \<noteq> []"
    and "Run cmd a \<in> set (calls (snd (snapshot w ex root d (latest_of d) args s)))"
    and "Run cmd a \<notin> set (calls s)"
  shows "faults w (Mkdir (snapshot_of w d) snapshotPermissions) = None
     \<and> entries s (snapshot_of w d) = None
     \<and> cmd = rsyncCommand
     \<and> a = args @ map (Sprintf rsyncExcludeFlagFormat) ex @ [with_slash root, snapshot_of w d]
     \<and> snapshot w ex root d (latest_of d) args s =
         finish w d a
           (s\<lparr>entries := (entries s)(snapshot_of w d \<mapsto> Directory snapshotPermissions),
              calls := calls s @ [Mkdir (snapshot_of w d) snapshotPermissions,
                                  Run rsyncCommand a]\<rparr>)"
  using assms(2,3)
  by (auto simp: snapshot_eq [OF assms(1)] finish_calls split: option.splits if_splits)

lemma inspect_reach:
  assumes "root \<noteq> []"
    and "Run cmd a \<in> set (calls (snd (inspect w ex root d s)))"
    and "Run cmd a \<notin> set (calls s)"
  shows "faults w (Lstat (latest_of d)) = None
     \<and> (entries s (latest_of d) = None \<or> (\<exists>t. entries s (latest_of d) = Some (Symlink t)))
     \<and> faults w (Mkdir (snapshot_of w d) snapshotPermissions) = None
     \<and> entries s (snapshot_of w d) = None
     \<and> cmd = rsyncCommand
     \<and> a = [rsyncArchiveFlags, rsyncDisableSpecials, rsyncDisableDevices]
           @ (case entries s (latest_of d) of
                Some (Symlink t) \<Rightarrow> [Sprintf rsyncBaseFlagFormat (latest_of d)]
              | _ \<Rightarrow> [])
           @ map (Sprintf rsyncExcludeFlagFormat) ex @ [with_slash root, snapshot_of w d]
     \<and> inspect w ex root d s =
         finish w d a
           (s\<lparr>entries := (entries s)(snapshot_of w d \<mapsto> Directory snapshotPermissions),
              calls := calls s @ [Lstat (latest_of d),
                                  Mkdir (snapshot_of w d) snapshotPermissions,
                                  Run rsyncCommand a]\<rparr>)"
proof (cases "faults w (Lstat (latest_of d))")
  case (Some f)
  with assms(2,3) show ?thesis by (simp add: inspect_eq)
next
  case None
  note nofault = None
  show ?thesis
  proof (cases "entries s (latest_of d)")
    case None
    with nofault assms(2,3) have
      "Run cmd a \<in> set (calls (snd (snapshot w ex root d (latest_of d)
          [rsyncArchiveFlags, rsyncDisableSpecials, rsyncDisableDevices]
          (s\<lparr>calls := calls s @ [Lstat (latest_of d)]\<rparr>))))"
      and "Run cmd a \<notin> set (calls (s\<lparr>calls := calls s @ [Lstat (latest_of d)]\<rparr>))"
      by (simp_all add: inspect_eq)
    from snapshot_reach [OF assms(1) this] nofault None show ?thesis
      by (simp add: inspect_eq)
  next
    case (Some n)
    show ?thesis
    proof (cases n)
      case (Symlink t)
      with Some nofault assms(2,3) have
        "Run cmd a \<in> set (calls (snd (snapshot w ex root d (latest_of d)
            [rsyncArchiveFlags, rsyncDisableSpecials, rsyncDisableDevices,
             Sprintf rsyncBaseFlagFormat (latest_of d)]
            (s\<lparr>calls := calls s @ [Lstat (latest_of d)]\<rparr>))))"
        and "Run cmd a \<notin> set (calls (s\<lparr>calls := calls s @ [Lstat (latest_of d)]\<rparr>))"
        by (simp_all add: inspect_eq)
      from snapshot_reach [OF assms(1) this] nofault Some Symlink show ?thesis
        by (simp add: inspect_eq)
    next
      case (Directory m)
      with Some nofault assms(2,3) show ?thesis by (simp add: inspect_eq)
    next
      case Regular
      with Some nofault assms(2,3) show ?thesis by (simp add: inspect_eq)
    qed
  qed
qed

lemma Sprintf_exclude: "Sprintf rsyncExcludeFlagFormat p = ''--exclude='' @ p"
  by (simp add: rsyncExcludeFlagFormat_def)

lemma Sprintf_base: "Sprintf rsyncBaseFlagFormat p = ''--link-dest='' @ p"
  by (simp add: rsyncBaseFlagFormat_def)

lemma ModeSymlink_iff: "ModeSymlink n = (\<exists>t. n = Symlink t)"
  by (cases n) simp_all

lemma spec_arguments_eq:
  "spec_arguments (hardlink_base fs l) ex r dst =
     [rsyncArchiveFlags, rsyncDisableSpecials, rsyncDisableDevices]
     @ (case fs l of Some (Symlink t) \<Rightarrow> [Sprintf rsyncBaseFlagFormat l] | _ \<Rightarrow> [])
     @ map (Sprintf rsyncExcludeFlagFormat) ex @ [r, dst]"
  by (simp add: spec_arguments_def hardlink_base_def Sprintf_base Sprintf_exclude
      rsyncArchiveFlags_def rsyncDisableSpecials_def rsyncDisableDevices_def
      split: option.splits node.splits)

lemma run_reaching_transfer:
  assumes "Run cmd a \<in> set (calls (snd (main w (Parsed ex [root, d]))))"
  shows "reaches_transfer w root d \<and> cmd = rsyncCommand
     \<and> a = spec_arguments (hardlink_base (disk w) (latest_of d)) ex (with_slash root)
           (snapshot_of w d)"
proof -
  have v: "root \<noteq> []" "d \<noteq> []"
    using assms main_invalid [of root d w ex] by auto
  let ?p = snapshotPermissions
  let ?s1 = "\<lparr>entries = (if disk w d = None then (disk w)(d \<mapsto> Directory ?p) else disk w),
              calls = [MkdirAll d ?p]\<rparr>"
  have m: "faults w (MkdirAll d ?p) = None \<and> disk w d \<noteq> Some Regular"
    using assms by (auto simp: main_eq [OF v] split: option.splits node.splits)
  then have e: "main w (Parsed ex [root, d]) = inspect w ex root d ?s1"
    by (auto simp: main_eq [OF v] split: option.splits node.splits)
  have "Run cmd a \<in> set (calls (snd (inspect w ex root d ?s1)))"
    and "Run cmd a \<notin> set (calls ?s1)"
    using assms e by simp_all
  from inspect_reach [OF v(1) this] have r:
    "faults w (Lstat (latest_of d)) = None"
    "entries ?s1 (latest_of d) = None \<or> (\<exists>t. entries ?s1 (latest_of d) = Some (Symlink t))"
    "faults w (Mkdir (snapshot_of w d) ?p) = None"
    "entries ?s1 (snapshot_of w d) = None"
    "cmd = rsyncCommand"
    "a = [rsyncArchiveFlags, rsyncDisableSpecials, rsyncDisableDevices]
           @ (case entries ?s1 (latest_of d) of
                Some (Symlink t) \<Rightarrow> [Sprintf rsyncBaseFlagFormat (latest_of d)]
              | _ \<Rightarrow> [])
           @ map (Sprintf rsyncExcludeFlagFormat) ex @ [with_slash root, snapshot_of w d]"
    by blast+
  have l: "entries ?s1 (latest_of d) = disk w (latest_of d)"
    using latest_neq_dir [OF v(2)] by simp
  have k: "entries ?s1 (snapshot_of w d) = disk w (snapshot_of w d)"
    using snapshot_neq_dir [OF v(2), of "clock w"] by simp
  have "a = spec_arguments (hardlink_base (disk w) (latest_of d)) ex (with_slash root)
           (snapshot_of w d)"
    unfolding r(6) l by (simp only: spec_arguments_eq)
  moreover have "reaches_transfer w root d"
    using v m r(1,2,3,4) unfolding l k
    by (auto simp: reaches_transfer_def)
  ultimately show ?thesis using r(5) by simp
qed

lemma main_reaching_transfer:
  assumes "reaches_transfer w root d"
    and "a = spec_arguments (hardlink_base (disk w) (latest_of d)) ex (with_slash root)
           (snapshot_of w d)"
  shows "main w (Parsed ex [root, d]) = finish w d a (at_transfer w d a)"
proof -
  have v: "root \<noteq> []" "d \<noteq> []" using assms(1) by (simp_all add: reaches_transfer_def)
  note n = latest_neq_dir [OF v(2)] snapshot_neq_dir [OF v(2), of "clock w"]
  have f: "faults w (MkdirAll d snapshotPermissions) = None"
    "faults w (Lstat (latest_of d)) = None"
    "faults w (Mkdir (snapshot_of w d) snapshotPermissions) = None"
    "disk w (snapshot_of w d) = None" "disk w d \<noteq> Some Regular"
    using assms(1) by (simp_all add: reaches_transfer_def)
  have l: "disk w (latest_of d) = None \<or> (\<exists>t. disk w (latest_of d) = Some (Symlink t))"
    using assms(1) by (auto simp: reaches_transfer_def ModeSymlink_iff split: option.splits)
  let ?p = snapshotPermissions
  let ?s1 = "\<lparr>entries = (if disk w d = None then (disk w)(d \<mapsto> Directory ?p) else disk w),
              calls = [MkdirAll d ?p]\<rparr>"
  have e: "main w (Parsed ex [root, d]) = inspect w ex root d ?s1"
    using f by (auto simp: main_eq [OF v] split: option.splits node.splits)
  have el: "entries ?s1 (latest_of d) = disk w (latest_of d)"
    and es: "entries ?s1 (snapshot_of w d) = None"
    using n f(4) by simp_all
  have a: "a = [rsyncArchiveFlags, rsyncDisableSpecials, rsyncDisableDevices]
     @ (case disk w (latest_of d) of
          Some (Symlink t) \<Rightarrow> [Sprintf rsyncBaseFlagFormat (latest_of d)] | _ \<Rightarrow> [])
     @ map (Sprintf rsyncExcludeFlagFormat) ex @ [with_slash root, snapshot_of w d]"
    unfolding assms(2) by (rule spec_arguments_eq)
  have "inspect w ex root d ?s1 = finish w d a (at_transfer w d a)"
    using l
  proof
    assume "disk w (latest_of d) = None"
    then show ?thesis
      using f(2,3) el es a
      by (simp add: inspect_eq snapshot_eq [OF v(1)] at_transfer_def)
  next
    assume "\<exists>t. disk w (latest_of d) = Some (Symlink t)"
    then obtain t where "disk w (latest_of d) = Some (Symlink t)" by blast
    then show ?thesis
      using f(2,3) el es a
      by (simp add: inspect_eq snapshot_eq [OF v(1)] at_transfer_def)
  qed
  with e show ?thesis by simp
qed

subsection \<open>The example runs, evaluated\<close>

lemma digit_values:
  "digit 0 = CHR ''0''" "digit 1 = CHR ''1''" "digit 2 = CHR ''2''" "digit 3 = CHR ''3''"
  "digit 4 = CHR ''4''" "digit 5 = CHR ''5''" "digit 6 = CHR ''6''" "digit 7 = CHR ''7''"
  "digit 8 = CHR ''8''" "digit 9 = CHR ''9''" "digit (Suc 0) = CHR ''1''"
  by code_simp+

lemma Format_noon: "Format noon = ''20240309T120007Z''"
  by (simp add: Format_def noon_def appendInt_def Let_def utod.simps digit_values)

lemma latest_of_snaps: "latest_of ''/snaps'' = ''/snaps/Latest''"
  by (simp add: filepath_Join.simps Clean_def clean_elements_def clean_step_def
      latestSnapshotLinkName_def)

lemma snapshot_at_noon: "filepath_Join [''/snaps'', Format noon] = ''/snaps/20240309T120007Z''"
  by (simp add: Format_noon filepath_Join.simps Clean_def clean_elements_def clean_step_def)

lemmas example_paths = latest_of_snaps snapshot_at_noon

lemma failing_reaches: "reaches_transfer failing ''/data'' ''/snaps''"
  by (simp add: reaches_transfer_def failing_def with_latest_def fresh_def example_paths)

lemma failing_run:
  "main failing (Parsed [] [''/data'', ''/snaps'']) =
     (Aborted RsyncFailed,
      at_transfer failing ''/snaps''
        [''-aPh'', ''--no-specials'', ''--no-devices'', ''--link-dest=/snaps/Latest'',
         ''/data/'', ''/snaps/20240309T120007Z''])"
proof -
  have c: "clock failing = noon" by (simp add: failing_def with_latest_def fresh_def)
  have "spec_arguments (hardlink_base (disk failing) (latest_of ''/snaps'')) []
          (with_slash ''/data'') (snapshot_of failing ''/snaps'')
        = [''-aPh'', ''--no-specials'', ''--no-devices'', ''--link-dest=/snaps/Latest'',
           ''/data/'', ''/snaps/20240309T120007Z'']"
    by (simp add: c example_paths spec_arguments_def hardlink_base_def with_slash_def
        failing_def with_latest_def fresh_def)
  from main_reaching_transfer [OF failing_reaches this [symmetric]] show ?thesis
    by (simp add: finish_def failing_def with_latest_def fresh_def)
qed

subsection \<open>A failed transfer\<close>

text \<open>
  C1. When the run invokes the transfer tool and the tool does not exit with status zero,
  the run ends with the rsync execution error (a \<^verbatim>\<open>TransferError\<close>, exit status not zero),
  the latest pointer holds what it held before the run, the new snapshot directory is on
  disk, and the transfer is the last call of the run: nothing is removed and no link is
  made.
\<close>

theorem transfer_failure_keeps_latest:
  assumes "main w (Parsed excludes [root, d]) = (out, s)"
    and "Run cmd a \<in> set (calls s)"
    and "tool w cmd a \<noteq> Some 0"
  shows "out = Aborted RsyncFailed \<and> kind_of RsyncFailed = TransferError
     \<and> exit_status out \<noteq> 0
     \<and> entries s (latest_of d) = disk w (latest_of d)
     \<and> entries s (snapshot_of w d) = Some (Directory snapshotPermissions)
     \<and> calls s = [MkdirAll d snapshotPermissions, Lstat (latest_of d),
          Mkdir (snapshot_of w d) snapshotPermissions, Run cmd a]"
proof -
  from assms(1,2) have r: "Run cmd a \<in> set (calls (snd (main w (Parsed excludes [root, d]))))"
    by simp
  note t = run_reaching_transfer [OF r]
  then have v: "d \<noteq> []" by (simp add: reaches_transfer_def)
  from t have "main w (Parsed excludes [root, d]) = finish w d a (at_transfer w d a)"
    by (intro main_reaching_transfer) simp_all
  with assms(1,3) t have "out = Aborted RsyncFailed" and "s = at_transfer w d a"
    by (simp_all add: finish_def)
  then show ?thesis
    using t latest_neq_dir [OF v] snapshot_neq_latest [OF v, of "clock w"]
    by (simp add: at_transfer_def)
qed

theorem transfer_failure_keeps_latest_witness:
  "fst (main failing (Parsed [] [''/data'', ''/snaps''])) = Aborted RsyncFailed
   \<and> entries (snd (main failing (Parsed [] [''/data'', ''/snaps''])))  ''/snaps/Latest''
       = Some (Symlink ''20240101T000000Z'')
   \<and> entries (snd (main failing (Parsed [] [''/data'', ''/snaps''])))
        ''/snaps/20240309T120007Z'' = Some (Directory 448)"
proof -
  let ?a = "[''-aPh'', ''--no-specials'', ''--no-devices'',
        ''--link-dest=/snaps/Latest'', ''/data/'', ''/snaps/20240309T120007Z'']"
  have r: "Run ''rsync'' ?a \<in> set (calls (at_transfer failing ''/snaps'' ?a))"
    by (simp add: at_transfer_def rsyncCommand_def)
  have t: "tool failing ''rsync'' ?a \<noteq> Some 0"
    by (simp add: failing_def with_latest_def fresh_def)
  have c: "clock failing = noon" by (simp add: failing_def with_latest_def fresh_def)
  have d: "disk failing ''/snaps/Latest'' = Some (Symlink ''20240101T000000Z'')"
    by (simp add: failing_def with_latest_def fresh_def)
  show ?thesis
    using transfer_failure_keeps_latest [OF failing_run r t] c d
    by (simp add: failing_run example_paths snapshotPermissions_def)
qed

subsection \<open>The argument list\<close>

text \<open>
  C4. The argument list \<^verbatim>\<open>rsync\<close> is run with is the list the specification describes:
  the three fixed flags, the base flag when the latest pointer is a symbolic link, one
  exclusion flag for each excluded path in the order given (nothing reordered, nothing
  dropped), the root with its trailing slash, and the snapshot directory last.
\<close>

theorem arguments_in_order:
  assumes "main w (Parsed excludes [root, d]) = (out, s)"
    and "Run cmd a \<in> set (calls s)"
  shows "cmd = ''rsync''
     \<and> a = spec_arguments (hardlink_base (disk w) (latest_of d)) excludes (with_slash root)
           (snapshot_of w d)
     \<and> trailing_slash root = Some (with_slash root)
     \<and> take 3 a = [''-aPh'', ''--no-specials'', ''--no-devices'']
     \<and> last a = snapshot_of w d \<and> last (butlast a) = with_slash root
     \<and> filter (\<lambda>x. take 10 x = ''--exclude='') (butlast (butlast a))
         = map (\<lambda>p. ''--exclude='' @ p) excludes"
proof -
  from assms have r: "Run cmd a \<in> set (calls (snd (main w (Parsed excludes [root, d]))))"
    by simp
  note t = run_reaching_transfer [OF r]
  then have v: "root \<noteq> []" by (simp add: reaches_transfer_def)
  have f: "filter (\<lambda>x. take 10 x = ''--exclude='') (map (\<lambda>p. ''--exclude='' @ p) excludes)
      = map (\<lambda>p. ''--exclude='' @ p) excludes"
    by (induction excludes) simp_all
  show ?thesis
    using t f
    by (simp add: trailing_slash_eq [OF v] rsyncCommand_def spec_arguments_def butlast_append
        split: option.splits)
qed

lemma fresh_reaches: "reaches_transfer fresh ''/data'' ''/snaps''"
  by (simp add: reaches_transfer_def fresh_def example_paths)

lemma fresh_arguments:
  "spec_arguments (hardlink_base (disk fresh) (latest_of ''/snaps'')) [''b/c'', ''a'', ''b/c'']
      (with_slash ''/data'') (snapshot_of fresh ''/snaps'')
   = [''-aPh'', ''--no-specials'', ''--no-devices'', ''--exclude=b/c'', ''--exclude=a'',
      ''--exclude=b/c'', ''/data/'', ''/snaps/20240309T120007Z'']"
  by (simp add: example_paths spec_arguments_def hardlink_base_def with_slash_def fresh_def)

theorem arguments_in_order_witness:
  "\<exists>out s. main fresh (Parsed [''b/c'', ''a'', ''b/c''] [''/data'', ''/snaps'']) = (out, s)
     \<and> Run ''rsync'' [''-aPh'', ''--no-specials'', ''--no-devices'', ''--exclude=b/c'',
          ''--exclude=a'', ''--exclude=b/c'', ''/data/'', ''/snaps/20240309T120007Z'']
        \<in> set (calls s)"
proof -
  let ?a = "[''-aPh'', ''--no-specials'', ''--no-devices'', ''--exclude=b/c'',
          ''--exclude=a'', ''--exclude=b/c'', ''/data/'', ''/snaps/20240309T120007Z'']"
  let ?m = "main fresh (Parsed [''b/c'', ''a'', ''b/c''] [''/data'', ''/snaps''])"
  have m: "?m = (fst ?m, snd ?m)" by simp
  have e: "?m = finish fresh ''/snaps'' ?a (at_transfer fresh ''/snaps'' ?a)"
    using main_reaching_transfer [OF fresh_reaches fresh_arguments [symmetric]] .
  have r: "Run ''rsync'' ?a \<in> set (calls (snd ?m))"
    unfolding e by (simp add: finish_calls at_transfer_def rsyncCommand_def)
  from arguments_in_order [OF m r] m r show ?thesis by blast
qed

subsection \<open>Runs that stop before the transfer, and the end of the others\<close>

lemma main_not_reaching:
  assumes "\<not> reaches_transfer w root d"
  shows "set (calls (snd (main w (Parsed ex [root, d]))))
       \<subseteq> {MkdirAll d snapshotPermissions, Lstat (latest_of d),
          Mkdir (snapshot_of w d) snapshotPermissions}
     \<and> (\<exists>f. fst (main w (Parsed ex [root, d])) = Aborted f)"
proof (cases "root = [] \<or> d = []")
  case True
  then show ?thesis by (auto simp: main_def Let_def)
next
  case False
  then have v: "root \<noteq> []" "d \<noteq> []" by simp_all
  note n = latest_neq_dir [OF v(2)] snapshot_neq_dir [OF v(2), of "clock w"]
  show ?thesis
    using assms v n
    by (auto simp: reaches_transfer_def main_eq [OF v] inspect_eq snapshot_eq [OF v(1)]
        split: option.splits node.splits)
qed

lemma finish_fst:
  "fst (finish w d a s) =
     (if tool w rsyncCommand a \<noteq> Some 0 then Aborted RsyncFailed
      else case faults w (Remove (latest_of d)) of
             Some f \<Rightarrow> Aborted (LatestNotRemoved (Other f))
           | None \<Rightarrow>
               (case faults w (SymlinkTo (Format (clock w)) (latest_of d)) of
                  Some f \<Rightarrow> Aborted (LatestNotUpdated (Other f))
                | None \<Rightarrow> Finished))"
  by (simp add: finish_def update_link_eq split: option.splits)

lemma finish_entries:
  "entries (snd (finish w d a s)) =
     (if tool w rsyncCommand a \<noteq> Some 0 \<or> faults w (Remove (latest_of d)) \<noteq> None
      then entries s
      else if faults w (SymlinkTo (Format (clock w)) (latest_of d)) \<noteq> None
      then (entries s)(latest_of d := None)
      else (entries s)(latest_of d \<mapsto> Symlink (Format (clock w))))"
  by (auto simp: finish_def update_link_eq split: option.splits)

lemma run_cases:
  obtains (reached) a where "reaches_transfer w root d"
      and "a = spec_arguments (hardlink_base (disk w) (latest_of d)) ex (with_slash root)
             (snapshot_of w d)"
      and "main w (Parsed ex [root, d]) = finish w d a (at_transfer w d a)"
    | (stopped) "\<not> reaches_transfer w root d"
      and "set (calls (snd (main w (Parsed ex [root, d]))))
         \<subseteq> {MkdirAll d snapshotPermissions, Lstat (latest_of d),
            Mkdir (snapshot_of w d) snapshotPermissions}"
  using main_reaching_transfer [of w root d _ ex] main_not_reaching [of w root d ex]
  by (cases "reaches_transfer w root d") blast+

lemma snapshot_path:
  "filepath_Join [''/snaps'', ''20240309T120007Z''] = ''/snaps/20240309T120007Z''"
  using snapshot_at_noon by (simp add: Format_noon)

subsection \<open>A latest pointer that is not a link\<close>

text \<open>
  C2. When the entry \<^verbatim>\<open>Latest\<close> of the snapshots directory exists and is not a symbolic
  link, the run exits with a status that is not zero, it makes no call but the
  \<^verbatim>\<open>MkdirAll\<close> of the snapshots directory and the \<^verbatim>\<open>Lstat\<close> of the link (no snapshot
  directory is created, no transfer is run), and no entry but the snapshots directory
  itself differs from the disk before the run. When these two calls meet no fault of the
  environment, the error is the one for a link path that is not a symlink, a
  \<^verbatim>\<open>CorruptState\<close>.
\<close>

theorem not_a_symlink_aborts:
  assumes "root \<noteq> []" and "d \<noteq> []"
    and "disk w (latest_of d) = Some n" and "\<not> ModeSymlink n"
    and "main w (Parsed excludes [root, d]) = (out, s)"
  shows "exit_status out \<noteq> 0
     \<and> set (calls s) \<subseteq> {MkdirAll d snapshotPermissions, Lstat (latest_of d)}
     \<and> (\<forall>p. p \<noteq> d \<longrightarrow> entries s p = disk w p)
     \<and> (faults w (MkdirAll d snapshotPermissions) = None \<and> disk w d \<noteq> Some Regular
          \<and> faults w (Lstat (latest_of d)) = None
        \<longrightarrow> out = Aborted LatestNotSymlink \<and> kind_of LatestNotSymlink = CorruptState
          \<and> calls s = [MkdirAll d snapshotPermissions, Lstat (latest_of d)])"
proof -
  note n = latest_neq_dir [OF assms(2)]
  have "ModeSymlink n = False" using assms(4) by simp
  then have c: "n = Regular \<or> (\<exists>m. n = Directory m)" by (cases n) simp_all
  show ?thesis
    using assms(3,5) n c
    by (auto simp: main_eq [OF assms(1,2)] inspect_eq split: option.splits node.splits)
qed

theorem not_a_symlink_aborts_witness:
  "fst (main stray (Parsed [] [''/data'', ''/snaps''])) = Aborted LatestNotSymlink
   \<and> calls (snd (main stray (Parsed [] [''/data'', ''/snaps''])))
       = [MkdirAll ''/snaps'' 448, Lstat ''/snaps/Latest'']"
proof -
  let ?m = "main stray (Parsed [] [''/data'', ''/snaps''])"
  have m: "?m = (fst ?m, snd ?m)" by simp
  have a: "''/data'' \<noteq> []" "''/snaps'' \<noteq> []" by simp_all
  have d: "disk stray (latest_of ''/snaps'') = Some Regular"
    by (simp add: stray_def fresh_def example_paths)
  have n: "\<not> ModeSymlink Regular" by simp
  have f: "faults stray (MkdirAll ''/snaps'' snapshotPermissions) = None
      \<and> disk stray ''/snaps'' \<noteq> Some Regular
      \<and> faults stray (Lstat (latest_of ''/snaps'')) = None"
    by (simp add: stray_def fresh_def)
  show ?thesis
    using not_a_symlink_aborts [OF a d n m] f
    by (simp add: example_paths snapshotPermissions_def)
qed

subsection \<open>The snapshot directory is created exclusively\<close>




subsection \<open>Publishing the new snapshot\<close>

text \<open>
  C6. A run removes the link \<^verbatim>\<open>Latest\<close> exactly when it has run \<^verbatim>\<open>rsync\<close> and \<^verbatim>\<open>rsync\<close>
  has exited with status zero, and it removes nothing else. After a successful transfer
  the removal is the next call. A link that is not there is tolerated (\<^verbatim>\<open>ENOENT\<close>);
  any other failure of the removal ends the run with a \<^verbatim>\<open>StorageError\<close>, without a new
  link and with the old one in place. Otherwise the next and last call makes the link
  \<^verbatim>\<open>Latest\<close> with the timestamp as its target: a single path element, not an absolute
  path. When that call succeeds the run is finished and the link holds the timestamp;
  when it fails the run ends with a \<^verbatim>\<open>StorageError\<close>.
\<close>

theorem publishing_after_transfer:
  assumes "main w (Parsed excludes [root, d]) = (out, s)"
  shows "(\<forall>p. Remove p \<in> set (calls s) \<longrightarrow> p = latest_of d)
     \<and> (Remove (latest_of d) \<in> set (calls s))
       = (\<exists>a. Run rsyncCommand a \<in> set (calls s) \<and> tool w rsyncCommand a = Some 0)
     \<and> (\<forall>cmd a. Run cmd a \<in> set (calls s) \<and> tool w cmd a = Some 0 \<longrightarrow>
          take 5 (calls s) = [MkdirAll d snapshotPermissions, Lstat (latest_of d),
               Mkdir (snapshot_of w d) snapshotPermissions, Run rsyncCommand a,
               Remove (latest_of d)]
          \<and> (disk w (latest_of d) = None \<and> faults w (Remove (latest_of d)) = None
              \<longrightarrow> fst (os_Remove w (latest_of d) (at_transfer w d a)) = Some ENOENT)
          \<and> (\<forall>f. faults w (Remove (latest_of d)) = Some f
              \<longrightarrow> out = Aborted (LatestNotRemoved (Other f))
                \<and> kind_of (LatestNotRemoved (Other f)) = StorageError
                \<and> length (calls s) = 5 \<and> entries s (latest_of d) = disk w (latest_of d))
          \<and> (faults w (Remove (latest_of d)) = None
              \<longrightarrow> drop 5 (calls s) = [SymlinkTo (Format (clock w)) (latest_of d)]
                \<and> simple_name (Format (clock w))
                \<and> (faults w (SymlinkTo (Format (clock w)) (latest_of d)) = None
                    \<longrightarrow> out = Finished
                      \<and> entries s (latest_of d) = Some (Symlink (Format (clock w))))
                \<and> (\<forall>f. faults w (SymlinkTo (Format (clock w)) (latest_of d)) = Some f
                    \<longrightarrow> out = Aborted (LatestNotUpdated (Other f))
                      \<and> kind_of (LatestNotUpdated (Other f)) = StorageError
                      \<and> entries s (latest_of d) = None)))"
proof (cases rule: run_cases [of w root d excludes])
  case stopped
  have "\<And>cmd a. Run cmd a \<notin> set (calls s)" "\<And>p. Remove p \<notin> set (calls s)"
    using stopped(2) assms by auto
  then show ?thesis by simp
next
  case (reached a)
  then have v: "d \<noteq> []" by (simp add: reaches_transfer_def)
  note n = latest_neq_dir [OF v] snapshot_neq_latest [OF v, of "clock w"]
  from reached(3) assms have o: "out = fst (finish w d a (at_transfer w d a))"
    and s: "s = snd (finish w d a (at_transfer w d a))"
    by (metis fst_conv, metis snd_conv)
  have c: "calls (at_transfer w d a) = [MkdirAll d snapshotPermissions, Lstat (latest_of d),
      Mkdir (snapshot_of w d) snapshotPermissions, Run rsyncCommand a]"
    by (simp add: at_transfer_def)
  have e: "entries (at_transfer w d a) (latest_of d) = disk w (latest_of d)"
    using n by (simp add: at_transfer_def)
  have only: "\<forall>p. Remove p \<in> set (calls s) \<longrightarrow> p = latest_of d"
    unfolding s finish_calls c by (auto split: if_splits)
  have run: "Run cmd b \<in> set (calls s) \<Longrightarrow> cmd = rsyncCommand \<and> b = a" for cmd b
    unfolding s finish_calls c by (auto split: if_splits)
  have "Run rsyncCommand a \<in> set (calls s)"
    unfolding s finish_calls c by simp
  with run have ex: "(\<exists>b. Run rsyncCommand b \<in> set (calls s) \<and> tool w rsyncCommand b = Some 0)
      = (tool w rsyncCommand a = Some 0)" by blast
  have iff: "(Remove (latest_of d) \<in> set (calls s))
       = (\<exists>a. Run rsyncCommand a \<in> set (calls s) \<and> tool w rsyncCommand a = Some 0)"
    unfolding ex unfolding s finish_calls c by simp
  have pub: "take 5 (calls s) = [MkdirAll d snapshotPermissions, Lstat (latest_of d),
               Mkdir (snapshot_of w d) snapshotPermissions, Run rsyncCommand a,
               Remove (latest_of d)]
          \<and> (disk w (latest_of d) = None \<and> faults w (Remove (latest_of d)) = None
              \<longrightarrow> fst (os_Remove w (latest_of d) (at_transfer w d a)) = Some ENOENT)
          \<and> (\<forall>f. faults w (Remove (latest_of d)) = Some f
              \<longrightarrow> out = Aborted (LatestNotRemoved (Other f))
                \<and> kind_of (LatestNotRemoved (Other f)) = StorageError
                \<and> length (calls s) = 5 \<and> entries s (latest_of d) = disk w (latest_of d))
          \<and> (faults w (Remove (latest_of d)) = None
              \<longrightarrow> drop 5 (calls s) = [SymlinkTo (Format (clock w)) (latest_of d)]
                \<and> simple_name (Format (clock w))
                \<and> (faults w (SymlinkTo (Format (clock w)) (latest_of d)) = None
                    \<longrightarrow> out = Finished
                      \<and> entries s (latest_of d) = Some (Symlink (Format (clock w))))
                \<and> (\<forall>f. faults w (SymlinkTo (Format (clock w)) (latest_of d)) = Some f
                    \<longrightarrow> out = Aborted (LatestNotUpdated (Other f))
                      \<and> kind_of (LatestNotUpdated (Other f)) = StorageError
                      \<and> entries s (latest_of d) = None))"
    if t: "tool w rsyncCommand a = Some 0"
  proof -
    have r: "disk w (latest_of d) = None \<and> faults w (Remove (latest_of d)) = None
        \<longrightarrow> fst (os_Remove w (latest_of d) (at_transfer w d a)) = Some ENOENT"
      using e by (simp add: os_Remove_def Let_def)
    have x: "take 5 (calls s) = [MkdirAll d snapshotPermissions, Lstat (latest_of d),
        Mkdir (snapshot_of w d) snapshotPermissions, Run rsyncCommand a, Remove (latest_of d)]"
      using t unfolding s finish_calls c by simp
    have y: "\<forall>f. faults w (Remove (latest_of d)) = Some f
          \<longrightarrow> out = Aborted (LatestNotRemoved (Other f))
            \<and> kind_of (LatestNotRemoved (Other f)) = StorageError
            \<and> length (calls s) = 5 \<and> entries s (latest_of d) = disk w (latest_of d)"
      using t e unfolding o s finish_calls finish_fst finish_entries c by simp
    have z: "faults w (Remove (latest_of d)) = None
          \<longrightarrow> drop 5 (calls s) = [SymlinkTo (Format (clock w)) (latest_of d)]
            \<and> simple_name (Format (clock w))
            \<and> (faults w (SymlinkTo (Format (clock w)) (latest_of d)) = None
                \<longrightarrow> out = Finished
                  \<and> entries s (latest_of d) = Some (Symlink (Format (clock w))))
            \<and> (\<forall>f. faults w (SymlinkTo (Format (clock w)) (latest_of d)) = Some f
                \<longrightarrow> out = Aborted (LatestNotUpdated (Other f))
                  \<and> kind_of (LatestNotUpdated (Other f)) = StorageError
                  \<and> entries s (latest_of d) = None)"
      using t unfolding o s finish_calls finish_fst finish_entries c
      by (simp add: Format_simple)
    from x r y z show ?thesis by blast
  qed
  have all: "\<forall>cmd b. Run cmd b \<in> set (calls s) \<and> tool w cmd b = Some 0 \<longrightarrow>
          take 5 (calls s) = [MkdirAll d snapshotPermissions, Lstat (latest_of d),
               Mkdir (snapshot_of w d) snapshotPermissions, Run rsyncCommand b,
               Remove (latest_of d)]
          \<and> (disk w (latest_of d) = None \<and> faults w (Remove (latest_of d)) = None
              \<longrightarrow> fst (os_Remove w (latest_of d) (at_transfer w d b)) = Some ENOENT)
          \<and> (\<forall>f. faults w (Remove (latest_of d)) = Some f
              \<longrightarrow> out = Aborted (LatestNotRemoved (Other f))
                \<and> kind_of (LatestNotRemoved (Other f)) = StorageError
                \<and> length (calls s) = 5 \<and> entries s (latest_of d) = disk w (latest_of d))
          \<and> (faults w (Remove (latest_of d)) = None
              \<longrightarrow> drop 5 (calls s) = [SymlinkTo (Format (clock w)) (latest_of d)]
                \<and> simple_name (Format (clock w))
                \<and> (faults w (SymlinkTo (Format (clock w)) (latest_of d)) = None
                    \<longrightarrow> out = Finished
                      \<and> entries s (latest_of d) = Some (Symlink (Format (clock w))))
                \<and> (\<forall>f. faults w (SymlinkTo (Format (clock w)) (latest_of d)) = Some f
                    \<longrightarrow> out = Aborted (LatestNotUpdated (Other f))
                      \<and> kind_of (LatestNotUpdated (Other f)) = StorageError
                      \<and> entries s (latest_of d) = None))"
  proof (intro allI impI)
    fix cmd b
    assume h: "Run cmd b \<in> set (calls s) \<and> tool w cmd b = Some 0"
    with run [of cmd b] have "cmd = rsyncCommand" "b = a" by simp_all
    with h pub show "take 5 (calls s) = [MkdirAll d snapshotPermissions, Lstat (latest_of d),
               Mkdir (snapshot_of w d) snapshotPermissions, Run rsyncCommand b,
               Remove (latest_of d)]
          \<and> (disk w (latest_of d) = None \<and> faults w (Remove (latest_of d)) = None
              \<longrightarrow> fst (os_Remove w (latest_of d) (at_transfer w d b)) = Some ENOENT)
          \<and> (\<forall>f. faults w (Remove (latest_of d)) = Some f
              \<longrightarrow> out = Aborted (LatestNotRemoved (Other f))
                \<and> kind_of (LatestNotRemoved (Other f)) = StorageError
                \<and> length (calls s) = 5 \<and> entries s (latest_of d) = disk w (latest_of d))
          \<and> (faults w (Remove (latest_of d)) = None
              \<longrightarrow> drop 5 (calls s) = [SymlinkTo (Format (clock w)) (latest_of d)]
                \<and> simple_name (Format (clock w))
                \<and> (faults w (SymlinkTo (Format (clock w)) (latest_of d)) = None
                    \<longrightarrow> out = Finished
                      \<and> entries s (latest_of d) = Some (Symlink (Format (clock w))))
                \<and> (\<forall>f. faults w (SymlinkTo (Format (clock w)) (latest_of d)) = Some f
                    \<longrightarrow> out = Aborted (LatestNotUpdated (Other f))
                      \<and> kind_of (LatestNotUpdated (Other f)) = StorageError
                      \<and> entries s (latest_of d) = None))"
      by blast
  qed
  from only iff all show ?thesis by (intro conjI)
qed

lemma with_latest_reaches: "reaches_transfer with_latest ''/data'' ''/snaps''"
  by (simp add: reaches_transfer_def with_latest_def fresh_def example_paths)

lemma with_latest_run:
  "main with_latest (Parsed [] [''/data'', ''/snaps'']) =
     finish with_latest ''/snaps''
       [''-aPh'', ''--no-specials'', ''--no-devices'', ''--link-dest=/snaps/Latest'',
        ''/data/'', ''/snaps/20240309T120007Z'']
       (at_transfer with_latest ''/snaps''
          [''-aPh'', ''--no-specials'', ''--no-devices'', ''--link-dest=/snaps/Latest'',
           ''/data/'', ''/snaps/20240309T120007Z''])"
proof -
  have c: "clock with_latest = noon" by (simp add: with_latest_def fresh_def)
  have "spec_arguments (hardlink_base (disk with_latest) (latest_of ''/snaps'')) []
          (with_slash ''/data'') (snapshot_of with_latest ''/snaps'')
        = [''-aPh'', ''--no-specials'', ''--no-devices'', ''--link-dest=/snaps/Latest'',
           ''/data/'', ''/snaps/20240309T120007Z'']"
    by (simp add: c example_paths spec_arguments_def hardlink_base_def with_slash_def
        with_latest_def fresh_def)
  from main_reaching_transfer [OF with_latest_reaches this [symmetric]] show ?thesis .
qed

lemma with_latest_calls:
  "calls (snd (main with_latest (Parsed [] [''/data'', ''/snaps'']))) =
     [MkdirAll ''/snaps'' 448, Lstat ''/snaps/Latest'', Mkdir ''/snaps/20240309T120007Z'' 448,
      Run ''rsync'' [''-aPh'', ''--no-specials'', ''--no-devices'',
        ''--link-dest=/snaps/Latest'', ''/data/'', ''/snaps/20240309T120007Z''],
      Remove ''/snaps/Latest'', SymlinkTo ''20240309T120007Z'' ''/snaps/Latest'']"
proof -
  have c: "clock with_latest = noon" by (simp add: with_latest_def fresh_def)
  have t: "tool with_latest = (\<lambda>name args. Some 0)" "faults with_latest = (\<lambda>c. None)"
    by (simp_all add: with_latest_def fresh_def)
  show ?thesis
    unfolding with_latest_run finish_calls
    by (simp add: t c at_transfer_def example_paths Format_noon snapshot_path
        snapshotPermissions_def rsyncCommand_def)
qed

lemma reached_Run:
  assumes "reaches_transfer w root d"
    and "a = spec_arguments (hardlink_base (disk w) (latest_of d)) ex (with_slash root)
           (snapshot_of w d)"
  shows "Run rsyncCommand a \<in> set (calls (snd (main w (Parsed ex [root, d]))))"
  unfolding main_reaching_transfer [OF assms] finish_calls by (simp add: at_transfer_def)

lemma first_arguments:
  "spec_arguments (hardlink_base (disk fresh) (latest_of ''/snaps'')) []
      (with_slash ''/data'') (snapshot_of fresh ''/snaps'')
   = [''-aPh'', ''--no-specials'', ''--no-devices'', ''/data/'', ''/snaps/20240309T120007Z'']"
  by (simp add: example_paths spec_arguments_def hardlink_base_def with_slash_def fresh_def)

lemma locked_reaches: "reaches_transfer locked ''/data'' ''/snaps''"
  by (simp add: reaches_transfer_def locked_def with_latest_def fresh_def example_paths)

lemma later_arguments:
  assumes "disk w = disk with_latest" and "clock w = noon"
  shows "spec_arguments (hardlink_base (disk w) (latest_of ''/snaps'')) []
      (with_slash ''/data'') (snapshot_of w ''/snaps'')
   = [''-aPh'', ''--no-specials'', ''--no-devices'', ''--link-dest=/snaps/Latest'',
      ''/data/'', ''/snaps/20240309T120007Z'']"
  by (simp add: assms example_paths spec_arguments_def hardlink_base_def with_slash_def
      with_latest_def fresh_def)

theorem publishing_after_transfer_witness:
  "disk fresh ''/snaps/Latest'' = None
   \<and> fst (os_Remove fresh ''/snaps/Latest''
        (at_transfer fresh ''/snaps''
          [''-aPh'', ''--no-specials'', ''--no-devices'', ''/data/'',
           ''/snaps/20240309T120007Z''])) = Some ENOENT
   \<and> fst (main fresh (Parsed [] [''/data'', ''/snaps''])) = Finished
   \<and> entries (snd (main fresh (Parsed [] [''/data'', ''/snaps''])))  ''/snaps/Latest''
       = Some (Symlink ''20240309T120007Z'')
   \<and> take 5 (calls (snd (main fresh (Parsed [] [''/data'', ''/snaps''])))) ! 4
       = Remove ''/snaps/Latest''
   \<and> drop 5 (calls (snd (main fresh (Parsed [] [''/data'', ''/snaps'']))))
       = [SymlinkTo ''20240309T120007Z'' ''/snaps/Latest'']
   \<and> fst (main with_latest (Parsed [] [''/data'', ''/snaps''])) = Finished
   \<and> entries (snd (main with_latest (Parsed [] [''/data'', ''/snaps''])))  ''/snaps/Latest''
       = Some (Symlink ''20240309T120007Z'')
   \<and> fst (main locked (Parsed [] [''/data'', ''/snaps'']))
       = Aborted (LatestNotRemoved (Other EACCES))
   \<and> entries (snd (main locked (Parsed [] [''/data'', ''/snaps''])))  ''/snaps/Latest''
       = Some (Symlink ''20240101T000000Z'')
   \<and> length (calls (snd (main locked (Parsed [] [''/data'', ''/snaps''])))) = 5
   \<and> Remove ''/snaps/Latest''
       \<notin> set (calls (snd (main failing (Parsed [] [''/data'', ''/snaps'']))))"
proof -
  let ?P = "Parsed [] [''/data'', ''/snaps'']"
  let ?a0 = "[''-aPh'', ''--no-specials'', ''--no-devices'', ''/data/'',
           ''/snaps/20240309T120007Z'']"
  let ?a1 = "[''-aPh'', ''--no-specials'', ''--no-devices'', ''--link-dest=/snaps/Latest'',
      ''/data/'', ''/snaps/20240309T120007Z'']"
  have m: "main w ?P = (fst (main w ?P), snd (main w ?P))" for w by simp
  have r0: "Run rsyncCommand ?a0 \<in> set (calls (snd (main fresh ?P)))"
    using reached_Run [OF fresh_reaches first_arguments [symmetric]] .
  have r1: "Run rsyncCommand ?a1 \<in> set (calls (snd (main with_latest ?P)))"
    using reached_Run [OF with_latest_reaches later_arguments [symmetric]]
    by (simp add: with_latest_def fresh_def)
  have r2: "Run rsyncCommand ?a1 \<in> set (calls (snd (main locked ?P)))"
    using reached_Run [OF locked_reaches later_arguments [symmetric]]
    by (simp add: locked_def with_latest_def fresh_def)
  have r3: "Run cmd a \<in> set (calls (snd (main failing ?P))) \<Longrightarrow> tool failing cmd a \<noteq> Some 0"
    for cmd a by (simp add: failing_def with_latest_def fresh_def)
  have t0: "tool fresh rsyncCommand ?a0 = Some 0" "faults fresh = (\<lambda>c. None)"
    "clock fresh = noon" "disk fresh ''/snaps/Latest'' = None"
    by (simp_all add: fresh_def)
  have t1: "tool with_latest rsyncCommand ?a1 = Some 0" "faults with_latest = (\<lambda>c. None)"
    "clock with_latest = noon"
    by (simp_all add: with_latest_def fresh_def)
  have t2: "tool locked rsyncCommand ?a1 = Some 0"
    "faults locked (Remove ''/snaps/Latest'') = Some EACCES" "clock locked = noon"
    "disk locked ''/snaps/Latest'' = Some (Symlink ''20240101T000000Z'')"
    by (simp_all add: locked_def with_latest_def fresh_def)
  note c6 = publishing_after_transfer
  have first: "fst (os_Remove fresh ''/snaps/Latest'' (at_transfer fresh ''/snaps'' ?a0))
        = Some ENOENT
      \<and> fst (main fresh ?P) = Finished
      \<and> entries (snd (main fresh ?P)) ''/snaps/Latest'' = Some (Symlink ''20240309T120007Z'')
      \<and> drop 5 (calls (snd (main fresh ?P)))
          = [SymlinkTo ''20240309T120007Z'' ''/snaps/Latest'']
      \<and> take 5 (calls (snd (main fresh ?P))) ! 4 = Remove ''/snaps/Latest''"
    using c6 [OF m [of fresh]] r0 t0 by (simp add: example_paths Format_noon)
  have again: "fst (main with_latest ?P) = Finished
      \<and> entries (snd (main with_latest ?P)) ''/snaps/Latest''
         = Some (Symlink ''20240309T120007Z'')"
    using c6 [OF m [of with_latest]] r1 t1 by (simp add: example_paths Format_noon)
  have refused: "fst (main locked ?P) = Aborted (LatestNotRemoved (Other EACCES))
      \<and> entries (snd (main locked ?P)) ''/snaps/Latest'' = Some (Symlink ''20240101T000000Z'')
      \<and> length (calls (snd (main locked ?P))) = 5"
    using c6 [OF m [of locked]] r2 t2 by (simp add: example_paths)
  have never: "Remove ''/snaps/Latest'' \<notin> set (calls (snd (main failing ?P)))"
    using c6 [OF m [of failing]] r3 by (auto simp: example_paths)
  from first again refused never t0(4) show ?thesis by simp
qed

subsection \<open>The base is the link itself\<close>

lemma latest_of_join_dir: "d \<noteq> [] \<Longrightarrow> latest_of d = join_dir d @ ''Latest''"
  using filepath_Join_simple [OF _ Latest_simple] by (simp add: latestSnapshotLinkName_def)

lemma relinked_reaches:
  assumes "reaches_transfer w root d" and "disk w (latest_of d) = Some (Symlink t)"
  shows "reaches_transfer (w\<lparr>disk := (disk w)(latest_of d \<mapsto> Symlink t')\<rparr>) root d"
proof -
  have v: "d \<noteq> []" using assms(1) by (simp add: reaches_transfer_def)
  note n = latest_neq_dir [OF v] snapshot_neq_latest [OF v, of "clock w"]
  show ?thesis using assms n by (simp add: reaches_transfer_def)
qed

text \<open>
  C9. When \<^verbatim>\<open>Latest\<close> is a symbolic link, the base flag of the argument list is made
  from the path of the link, the snapshots directory joined with \<^verbatim>\<open>Latest\<close>, whatever
  the target of the link is: with any other target in its place the run makes the same
  calls with the same arguments and ends the same way, so the target is never read, and
  a link whose target does not exist is passed on as the base all the same.
\<close>

theorem base_flag_is_link_path:
  assumes "main w (Parsed excludes [root, d]) = (out, s)"
    and "disk w (latest_of d) = Some (Symlink t)"
    and "Run cmd a \<in> set (calls s)"
  shows "a ! 3 = Sprintf rsyncBaseFlagFormat (latest_of d)
     \<and> a ! 3 = ''--link-dest='' @ join_dir d @ ''Latest''
     \<and> (\<forall>t'. fst (main (w\<lparr>disk := (disk w)(latest_of d \<mapsto> Symlink t')\<rparr>)
                  (Parsed excludes [root, d])) = out
           \<and> calls (snd (main (w\<lparr>disk := (disk w)(latest_of d \<mapsto> Symlink t')\<rparr>)
                  (Parsed excludes [root, d]))) = calls s)"
proof -
  from assms(1,3) have r: "Run cmd a \<in> set (calls (snd (main w (Parsed excludes [root, d]))))"
    by simp
  note t = run_reaching_transfer [OF r]
  then have reach: "reaches_transfer w root d"
    and a: "a = spec_arguments (hardlink_base (disk w) (latest_of d)) excludes
              (with_slash root) (snapshot_of w d)" by simp_all
  have v: "d \<noteq> []" using reach by (simp add: reaches_transfer_def)
  have flag: "a ! 3 = Sprintf rsyncBaseFlagFormat (latest_of d)"
    unfolding a by (simp add: spec_arguments_def hardlink_base_def assms(2) Sprintf_base)
  then have shape: "a ! 3 = ''--link-dest='' @ join_dir d @ ''Latest''"
    using latest_of_join_dir [OF v] by (simp add: Sprintf_base)
  have m: "main w (Parsed excludes [root, d]) = finish w d a (at_transfer w d a)"
    using reach a by (rule main_reaching_transfer)
  have same: "fst (main (w\<lparr>disk := (disk w)(latest_of d \<mapsto> Symlink t')\<rparr>)
                  (Parsed excludes [root, d])) = out
           \<and> calls (snd (main (w\<lparr>disk := (disk w)(latest_of d \<mapsto> Symlink t')\<rparr>)
                  (Parsed excludes [root, d]))) = calls s" for t'
  proof -
    let ?w = "w\<lparr>disk := (disk w)(latest_of d \<mapsto> Symlink t')\<rparr>"
    have "reaches_transfer ?w root d" using reach assms(2) by (rule relinked_reaches)
    moreover have "a = spec_arguments (hardlink_base (disk ?w) (latest_of d)) excludes
              (with_slash root) (snapshot_of ?w d)"
      unfolding a by (simp add: hardlink_base_def assms(2))
    ultimately have "main ?w (Parsed excludes [root, d]) = finish ?w d a (at_transfer ?w d a)"
      by (rule main_reaching_transfer)
    moreover have "out = fst (finish w d a (at_transfer w d a))"
      and "s = snd (finish w d a (at_transfer w d a))"
      using m assms(1) by (metis fst_conv, metis snd_conv)
    ultimately show ?thesis
      by (simp add: finish_fst finish_calls at_transfer_def split: option.splits)
  qed
  from flag shape same show ?thesis by blast
qed

lemma dangling_reaches: "reaches_transfer dangling ''/data'' ''/snaps''"
  by (simp add: reaches_transfer_def dangling_def fresh_def example_paths)

lemma dangling_run:
  "main dangling (Parsed [] [''/data'', ''/snaps'']) =
     finish dangling ''/snaps''
       [''-aPh'', ''--no-specials'', ''--no-devices'', ''--link-dest=/snaps/Latest'',
        ''/data/'', ''/snaps/20240309T120007Z'']
       (at_transfer dangling ''/snaps''
          [''-aPh'', ''--no-specials'', ''--no-devices'', ''--link-dest=/snaps/Latest'',
           ''/data/'', ''/snaps/20240309T120007Z''])"
proof -
  have c: "clock dangling = noon" by (simp add: dangling_def fresh_def)
  have "spec_arguments (hardlink_base (disk dangling) (latest_of ''/snaps'')) []
          (with_slash ''/data'') (snapshot_of dangling ''/snaps'')
        = [''-aPh'', ''--no-specials'', ''--no-devices'', ''--link-dest=/snaps/Latest'',
           ''/data/'', ''/snaps/20240309T120007Z'']"
    by (simp add: c example_paths spec_arguments_def hardlink_base_def with_slash_def
        dangling_def fresh_def)
  from main_reaching_transfer [OF dangling_reaches this [symmetric]] show ?thesis .
qed

theorem base_flag_is_link_path_witness:
  "disk dangling ''/snaps/gone'' = None
   \<and> fst (main dangling (Parsed [] [''/data'', ''/snaps''])) = Finished
   \<and> Run ''rsync'' [''-aPh'', ''--no-specials'', ''--no-devices'',
        ''--link-dest=/snaps/Latest'', ''/data/'', ''/snaps/20240309T120007Z'']
      \<in> set (calls (snd (main dangling (Parsed [] [''/data'', ''/snaps'']))))
   \<and> join_dir ''/snaps'' = ''/snaps/''"
proof -
  let ?a = "[''-aPh'', ''--no-specials'', ''--no-devices'',
        ''--link-dest=/snaps/Latest'', ''/data/'', ''/snaps/20240309T120007Z'']"
  let ?m = "main dangling (Parsed [] [''/data'', ''/snaps''])"
  have m: "?m = (fst ?m, snd ?m)" by simp
  have t: "tool dangling = (\<lambda>name args. Some 0)" "faults dangling = (\<lambda>c. None)"
    by (simp_all add: dangling_def fresh_def)
  have d: "disk dangling (latest_of ''/snaps'') = Some (Symlink ''gone'')"
    by (simp add: example_paths) (simp add: dangling_def fresh_def)
  have g: "disk dangling ''/snaps/gone'' = None" by (simp add: dangling_def fresh_def)
  have r: "Run ''rsync'' ?a \<in> set (calls (snd ?m))"
    unfolding dangling_run finish_calls by (simp add: at_transfer_def rsyncCommand_def)
  have f: "fst ?m = Finished" unfolding dangling_run finish_fst by (simp add: t)
  show ?thesis
    using base_flag_is_link_path [OF m d r] g r f by simp
qed

subsection \<open>The base flag and the latest pointer\<close>

lemma last_latest: "d \<noteq> [] \<Longrightarrow> last (latest_of d) = CHR ''t''"
  by (simp add: latest_of_join_dir)

lemma last_snapshot: "d \<noteq> [] \<Longrightarrow> last (filepath_Join [d, Format t]) = CHR ''Z''"
  using Format_last [of t] Format_simple [of t]
  by (simp add: filepath_Join_simple simple_name_def)

lemma last_with_slash: "last (with_slash root) = CHR ''/''"
  by (simp add: with_slash_def)

lemma last_of_flag: "x = p @ l \<Longrightarrow> l \<noteq> [] \<Longrightarrow> last x = last l"
  by simp

lemma base_flag_not_operand:
  assumes "d \<noteq> []"
  shows "''--link-dest='' @ latest_of d \<noteq> with_slash root"
    and "''--link-dest='' @ latest_of d \<noteq> filepath_Join [d, Format t]"
proof -
  have l: "latest_of d \<noteq> []" using latest_of_join_dir [OF assms] by simp
  show "''--link-dest='' @ latest_of d \<noteq> with_slash root"
  proof
    assume "''--link-dest='' @ latest_of d = with_slash root"
    from last_of_flag [OF this [symmetric] l]
    have "last (with_slash root) = CHR ''t''" by (simp only: last_latest [OF assms])
    then show False by (simp add: last_with_slash)
  qed
  show "''--link-dest='' @ latest_of d \<noteq> filepath_Join [d, Format t]"
  proof
    assume "''--link-dest='' @ latest_of d = filepath_Join [d, Format t]"
    from last_of_flag [OF this [symmetric] l]
    have "last (filepath_Join [d, Format t]) = CHR ''t''"
      by (simp only: last_latest [OF assms])
    then show False by (simp add: last_snapshot [OF assms])
  qed
qed

text \<open>
  C3, as amended. In a run that reaches the transfer the latest pointer was absent or a
  symbolic link before the run, and the argument list holds the base flag made from the
  path of the link exactly when it was a link. The flag is then the fourth argument and
  names the link, not the snapshot the link leads to. With no latest pointer no argument
  before the source and the destination starts as a base flag does.
\<close>

theorem base_flag_iff_link:
  assumes "main w (Parsed excludes [root, d]) = (out, s)"
    and "Run cmd a \<in> set (calls s)"
  shows "((''--link-dest='' @ latest_of d) \<in> set a)
       = (\<exists>t. disk w (latest_of d) = Some (Symlink t))
     \<and> ((\<exists>t. disk w (latest_of d) = Some (Symlink t))
          \<longrightarrow> a ! 3 = ''--link-dest='' @ latest_of d)
     \<and> (disk w (latest_of d) = None
          \<longrightarrow> (\<forall>x\<in>set (butlast (butlast a)). take 12 x \<noteq> ''--link-dest=''))
     \<and> (disk w (latest_of d) = None \<or> (\<exists>t. disk w (latest_of d) = Some (Symlink t)))"
proof -
  from assms have r: "Run cmd a \<in> set (calls (snd (main w (Parsed excludes [root, d]))))"
    by simp
  note t = run_reaching_transfer [OF r]
  then have reach: "reaches_transfer w root d"
    and a: "a = spec_arguments (hardlink_base (disk w) (latest_of d)) excludes
              (with_slash root) (snapshot_of w d)" by simp_all
  have v: "d \<noteq> []" using reach by (simp add: reaches_transfer_def)
  note n = base_flag_not_operand(1) [OF v, of root]
    base_flag_not_operand(2) [OF v, of "clock w"]
  from reach have "disk w (latest_of d) = None \<or> (\<exists>t. disk w (latest_of d) = Some (Symlink t))"
    by (auto simp: reaches_transfer_def ModeSymlink_iff split: option.splits)
  then show ?thesis
  proof
    assume none: "disk w (latest_of d) = None"
    then have "a = [''-aPh'', ''--no-specials'', ''--no-devices'']
        @ map (\<lambda>p. ''--exclude='' @ p) excludes @ [with_slash root, snapshot_of w d]"
      unfolding a by (simp add: spec_arguments_def hardlink_base_def)
    with none n show ?thesis by (auto simp: butlast_append)
  next
    assume "\<exists>t. disk w (latest_of d) = Some (Symlink t)"
    then obtain t where link: "disk w (latest_of d) = Some (Symlink t)" by blast
    then have "a = [''-aPh'', ''--no-specials'', ''--no-devices'', ''--link-dest='' @ latest_of d]
        @ map (\<lambda>p. ''--exclude='' @ p) excludes @ [with_slash root, snapshot_of w d]"
      unfolding a by (simp add: spec_arguments_def hardlink_base_def)
    with link show ?thesis by simp
  qed
qed

theorem base_flag_iff_link_witness:
  "''--link-dest=/snaps/Latest''
     \<in> set [''-aPh'', ''--no-specials'', ''--no-devices'', ''--link-dest=/snaps/Latest'',
          ''/data/'', ''/snaps/20240309T120007Z'']
   \<and> (\<exists>t. disk with_latest ''/snaps/Latest'' = Some (Symlink t))
   \<and> Run ''rsync'' [''-aPh'', ''--no-specials'', ''--no-devices'',
        ''--link-dest=/snaps/Latest'', ''/data/'', ''/snaps/20240309T120007Z'']
      \<in> set (calls (snd (main with_latest (Parsed [] [''/data'', ''/snaps'']))))"
proof -
  let ?m = "main with_latest (Parsed [] [''/data'', ''/snaps''])"
  have m: "?m = (fst ?m, snd ?m)" by simp
  have r: "Run ''rsync'' [''-aPh'', ''--no-specials'', ''--no-devices'',
        ''--link-dest=/snaps/Latest'', ''/data/'', ''/snaps/20240309T120007Z'']
      \<in> set (calls (snd ?m))" by (simp add: with_latest_calls)
  show ?thesis
    using base_flag_iff_link [OF m r] r by (simp add: example_paths)
qed

text \<open>
  C3 as stated has the flag refer to the path of the snapshot the link leads to. On a
  disk where \<^verbatim>\<open>Latest\<close> leads to the snapshot \<^verbatim>\<open>20240101T000000Z\<close> the flag is
  \<^verbatim>\<open>--link-dest=/snaps/Latest\<close>, and no argument names the path of that snapshot.
\<close>

theorem base_flag_names_target_counterexample:
  "disk with_latest ''/snaps/Latest'' = Some (Symlink ''20240101T000000Z'')
   \<and> disk with_latest ''/snaps/20240101T000000Z'' = Some (Directory 448)
   \<and> calls (snd (main with_latest (Parsed [] [''/data'', ''/snaps'']))) ! 3
       = Run ''rsync'' [''-aPh'', ''--no-specials'', ''--no-devices'',
           ''--link-dest=/snaps/Latest'', ''/data/'', ''/snaps/20240309T120007Z'']
   \<and> ''--link-dest=/snaps/20240101T000000Z''
       \<notin> set [''-aPh'', ''--no-specials'', ''--no-devices'',
           ''--link-dest=/snaps/Latest'', ''/data/'', ''/snaps/20240309T120007Z'']"
  by (simp add: with_latest_calls) (simp add: with_latest_def fresh_def)

subsection \<open>The snapshot identifier\<close>

lemma dm_less:
  "((n::nat) div 10 < m div 10 \<or> n div 10 = m div 10 \<and> n mod 10 < m mod 10) = (n < m)"
proof -
  have n: "n = 10 * (n div 10) + n mod 10" and m: "m = 10 * (m div 10) + m mod 10" by simp_all
  have a: "n mod 10 < 10" "m mod 10 < 10" by simp_all
  show ?thesis
  proof
    assume "n div 10 < m div 10 \<or> n div 10 = m div 10 \<and> n mod 10 < m mod 10"
    then show "n < m"
    proof
      assume "n div 10 < m div 10"
      then have "10 * (n div 10) + 10 \<le> 10 * (m div 10)" by simp
      with a n m show ?thesis by linarith
    next
      assume "n div 10 = m div 10 \<and> n mod 10 < m mod 10"
      with n m show ?thesis by linarith
    qed
  next
    assume l: "n < m"
    show "n div 10 < m div 10 \<or> n div 10 = m div 10 \<and> n mod 10 < m mod 10"
    proof (cases "n div 10 = m div 10")
      case True
      with l n m have "n mod 10 < m mod 10" by linarith
      with True show ?thesis by simp
    next
      case False
      from l have "n div 10 \<le> m div 10" by (simp add: div_le_mono)
      with False show ?thesis by simp
    qed
  qed
qed

lemma dm_eq: "((n::nat) = m) = (n div 10 = m div 10 \<and> n mod 10 = m mod 10)"
proof
  assume "n div 10 = m div 10 \<and> n mod 10 = m mod 10"
  then have "10 * (n div 10) + n mod 10 = 10 * (m div 10) + m mod 10" by simp
  then show "n = m" by simp
qed simp

lemma dv: "(n::nat) < 10 ^ Suc w \<Longrightarrow> n div 10 < 10 ^ w"
  by (simp add: less_mult_imp_div_less mult.commute)

lemma zero_padded_length: "length (zero_padded w n) = w"
  by (induction w arbitrary: n) simp_all

lemma append_less:
  "length xs = length ys \<Longrightarrow> (xs @ u < ys @ v) = (xs < ys \<or> xs = ys \<and> u < v)"
  by (induction xs ys rule: list_induct2) auto

lemma digit_less: "a < 10 \<Longrightarrow> b < 10 \<Longrightarrow> (digit a < digit b) = (a < b)"
  by (simp add: less_char_def of_char_digit)

lemma digit_eq: "a < 10 \<Longrightarrow> b < 10 \<Longrightarrow> (digit a = digit b) = (a = b)"
proof
  assume "a < 10" "b < 10" "digit a = digit b"
  then have "(of_char (digit a) :: nat) = of_char (digit b)" by simp
  with \<open>a < 10\<close> \<open>b < 10\<close> show "a = b" by (simp add: of_char_digit)
qed simp

lemma zero_padded_eq:
  "n < 10 ^ w \<Longrightarrow> m < 10 ^ w \<Longrightarrow> (zero_padded w n = zero_padded w m) = (n = m)"
proof (induction w arbitrary: n m)
  case 0
  then show ?case by simp
next
  case (Suc w)
  then have "n div 10 < 10 ^ w" "m div 10 < 10 ^ w" by (simp_all add: dv)
  with Suc.IH have "(zero_padded w (n div 10) = zero_padded w (m div 10)) = (n div 10 = m div 10)"
    by blast
  moreover have "(digit (n mod 10) = digit (m mod 10)) = (n mod 10 = m mod 10)"
    by (simp add: digit_eq)
  moreover have "(n = m) = (n div 10 = m div 10 \<and> n mod 10 = m mod 10)"
    by (rule dm_eq)
  ultimately show ?case by simp
qed

lemma zero_padded_less:
  "n < 10 ^ w \<Longrightarrow> m < 10 ^ w \<Longrightarrow> (zero_padded w n < zero_padded w m) = (n < m)"
proof (induction w arbitrary: n m)
  case 0
  then show ?case by simp
next
  case (Suc w)
  then have b: "n div 10 < 10 ^ w" "m div 10 < 10 ^ w"
    by (simp_all add: dv)
  have "(zero_padded (Suc w) n < zero_padded (Suc w) m)
      = (zero_padded w (n div 10) < zero_padded w (m div 10)
         \<or> zero_padded w (n div 10) = zero_padded w (m div 10)
           \<and> digit (n mod 10) < digit (m mod 10))"
    by (simp add: append_less zero_padded_length)
  also have "\<dots> = (n div 10 < m div 10 \<or> n div 10 = m div 10 \<and> n mod 10 < m mod 10)"
    using Suc.IH [OF b] zero_padded_eq [OF b] by (simp add: digit_less)
  also have "\<dots> = (n < m)"
    by (rule dm_less)
  finally show ?case .
qed

lemma digit_zero: "digit 0 = CHR ''0''"
  by code_simp

lemma zero_padded_zero: "zero_padded w 0 = replicate w CHR ''0''"
  by (induction w) (simp_all add: digit_zero replicate_append_same)

lemma pad_utod:
  "0 < w \<Longrightarrow> n < 10 ^ w \<Longrightarrow>
   replicate (w - length (utod n)) CHR ''0'' @ utod n = zero_padded w n"
proof (induction w arbitrary: n)
  case 0
  then show ?case by simp
next
  case (Suc w)
  show ?case
  proof (cases "n < 10")
    case True
    then show ?thesis by (simp add: utod.simps [of n] zero_padded_zero)
  next
    case False
    with Suc.prems have w: "0 < w" by (cases w) simp_all
    have d: "n div 10 < 10 ^ w" using Suc.prems by (simp add: dv)
    have u: "utod n = utod (n div 10) @ [digit (n mod 10)]"
      using False by (simp add: utod.simps [of n])
    have "replicate (Suc w - length (utod n)) CHR ''0'' @ utod n
        = (replicate (w - length (utod (n div 10))) CHR ''0'' @ utod (n div 10))
          @ [digit (n mod 10)]"
      by (simp add: u)
    also have "\<dots> = zero_padded w (n div 10) @ [digit (n mod 10)]"
      using Suc.IH [OF w d] by simp
    finally show ?thesis by simp
  qed
qed

lemma appendInt_fixed:
  "0 < w \<Longrightarrow> n < 10 ^ w \<Longrightarrow> appendInt (int n) w = zero_padded w n"
  by (simp add: appendInt_def pad_utod)

lemma Format_fixed:
  assumes "valid_time t" and "0 \<le> year t" and "year t \<le> 9999"
  shows "Format t =
     zero_padded 4 (nat (year t)) @ zero_padded 2 (month t) @ zero_padded 2 (day t) @ ''T''
     @ zero_padded 2 (hour t) @ zero_padded 2 (minute t) @ zero_padded 2 (second t) @ ''Z''"
proof -
  have "appendInt (year t) 4 = zero_padded 4 (nat (year t))"
    using assms(2,3) appendInt_fixed [of 4 "nat (year t)"] by simp
  moreover have "appendInt (int (month t)) 2 = zero_padded 2 (month t)"
    "appendInt (int (day t)) 2 = zero_padded 2 (day t)"
    "appendInt (int (hour t)) 2 = zero_padded 2 (hour t)"
    "appendInt (int (minute t)) 2 = zero_padded 2 (minute t)"
    "appendInt (int (second t)) 2 = zero_padded 2 (second t)"
    using assms(1) by (simp_all add: valid_time_def appendInt_fixed)
  ultimately show ?thesis by (simp add: Format_def)
qed

lemma portable_digit: "d < 10 \<Longrightarrow> portable_char (digit d)"
  by (simp add: portable_char_def of_char_digit Let_def)

lemma Format_portable: "c \<in> set (Format t) \<Longrightarrow> portable_char c"
proof -
  assume "c \<in> set (Format t)"
  then consider x n where "c \<in> set (appendInt x n)" | "c = CHR ''T''" | "c = CHR ''Z''"
    by (auto simp: Format_def)
  then show ?thesis
  proof cases
    case 1
    from appendInt_chars [OF this] show ?thesis
      using portable_digit by (auto simp: portable_char_def)
  next
    case 2
    then show ?thesis by (simp add: portable_char_def)
  next
    case 3
    then show ?thesis by (simp add: portable_char_def)
  qed
qed

lemma Format_less:
  assumes "valid_time a" and "valid_time b"
    and "0 \<le> year a" and "year a \<le> 9999" and "0 \<le> year b" and "year b \<le> 9999"
  shows "(Format a < Format b) = earlier_second a b"
proof -
  have y: "nat (year a) < 10 ^ 4" "nat (year b) < 10 ^ 4" using assms(3-6) by simp_all
  have f: "month a < 10 ^ 2" "month b < 10 ^ 2" "day a < 10 ^ 2" "day b < 10 ^ 2"
    "hour a < 10 ^ 2" "hour b < 10 ^ 2" "minute a < 10 ^ 2" "minute b < 10 ^ 2"
    "second a < 10 ^ 2" "second b < 10 ^ 2"
    using assms(1,2) by (simp_all add: valid_time_def)
  have n: "(nat (year a) < nat (year b)) = (year a < year b)"
    "(nat (year a) = nat (year b)) = (year a = year b)"
    using assms(3,5) by auto
  have ly: "(zero_padded 4 (nat (year a)) < zero_padded 4 (nat (year b))) = (year a < year b)"
    by (simp only: zero_padded_less [OF y] n)
  have ey: "(zero_padded 4 (nat (year a)) = zero_padded 4 (nat (year b))) = (year a = year b)"
    by (simp only: zero_padded_eq [OF y] n)
  note l = ly zero_padded_less [OF f(1,2)] zero_padded_less [OF f(3,4)]
    zero_padded_less [OF f(5,6)] zero_padded_less [OF f(7,8)] zero_padded_less [OF f(9,10)]
  note e = ey zero_padded_eq [OF f(1,2)] zero_padded_eq [OF f(3,4)]
    zero_padded_eq [OF f(5,6)] zero_padded_eq [OF f(7,8)] zero_padded_eq [OF f(9,10)]
  have "(Format a < Format b) =
     (year a < year b \<or> year a = year b \<and>
       (month a < month b \<or> month a = month b \<and>
         (day a < day b \<or> day a = day b \<and>
           (hour a < hour b \<or> hour a = hour b \<and>
             (minute a < minute b \<or> minute a = minute b \<and> second a < second b)))))"
    unfolding Format_fixed [OF assms(1,3,4)] Format_fixed [OF assms(2,5,6)]
    by (simp add: append_less zero_padded_length l e)
  then show ?thesis by (simp add: earlier_second_def)
qed

lemma Format_eq:
  assumes "valid_time a" and "valid_time b"
    and "0 \<le> year a" and "year a \<le> 9999" and "0 \<le> year b" and "year b \<le> 9999"
  shows "(Format a = Format b) = (to_the_second a = to_the_second b)"
proof -
  have y: "nat (year a) < 10 ^ 4" "nat (year b) < 10 ^ 4" using assms(3-6) by simp_all
  have f: "month a < 10 ^ 2" "month b < 10 ^ 2" "day a < 10 ^ 2" "day b < 10 ^ 2"
    "hour a < 10 ^ 2" "hour b < 10 ^ 2" "minute a < 10 ^ 2" "minute b < 10 ^ 2"
    "second a < 10 ^ 2" "second b < 10 ^ 2"
    using assms(1,2) by (simp_all add: valid_time_def)
  have n: "(nat (year a) = nat (year b)) = (year a = year b)"
    using assms(3,5) by auto
  have ey: "(zero_padded 4 (nat (year a)) = zero_padded 4 (nat (year b))) = (year a = year b)"
    by (simp only: zero_padded_eq [OF y] n)
  note e = ey zero_padded_eq [OF f(1,2)] zero_padded_eq [OF f(3,4)]
    zero_padded_eq [OF f(5,6)] zero_padded_eq [OF f(7,8)] zero_padded_eq [OF f(9,10)]
  show ?thesis
    unfolding Format_fixed [OF assms(1,3,4)] Format_fixed [OF assms(2,5,6)] to_the_second_def
    by (simp add: zero_padded_length e)
qed

lemma Format_length:
  assumes "valid_time a" and "0 \<le> year a" and "year a \<le> 9999"
  shows "length (Format a) = 16"
  unfolding Format_fixed [OF assms] by (simp add: zero_padded_length)

text \<open>
  C8, as amended. The identifier is the UTC time of the clock, to the second: for a year
  from 0 to 9999 it is the year in four digits, the month, the day, the letter T, the
  hour, the minute and the second in two digits each, and the letter Z, sixteen
  characters that are all portable filename characters. Two identifiers are in the
  lexicographic order exactly when the instants fall in seconds in that order, and are
  equal exactly when the instants fall in the same second; so a later instant never
  has a smaller identifier.
\<close>

theorem identifier_by_second:
  assumes "valid_time a" and "valid_time b"
    and "0 \<le> year a" and "year a \<le> 9999" and "0 \<le> year b" and "year b \<le> 9999"
  shows "Format a =
       zero_padded 4 (nat (year a)) @ zero_padded 2 (month a) @ zero_padded 2 (day a) @ ''T''
       @ zero_padded 2 (hour a) @ zero_padded 2 (minute a) @ zero_padded 2 (second a) @ ''Z''
     \<and> length (Format a) = 16
     \<and> (\<forall>c\<in>set (Format a). portable_char c)
     \<and> (Format a < Format b) = earlier_second a b
     \<and> (Format a = Format b) = (to_the_second a = to_the_second b)
     \<and> (earlier a b \<longrightarrow> Format a \<le> Format b)"
proof -
  note l = Format_less [OF assms] and e = Format_eq [OF assms]
  have "earlier a b \<longrightarrow> Format a \<le> Format b"
    unfolding earlier_def using l e by (auto simp: less_le)
  with l e show ?thesis
    using Format_fixed [OF assms(1,3,4)] Format_length [OF assms(1,3,4)] Format_portable [of _ a]
    by blast
qed

lemma Format_examples:
  "Format a_second_later = ''20240309T120008Z''"
  "Format half_a_second_later = ''20240309T120007Z''"
  "Format last_of_9999 = ''99991231T235959Z''"
  "Format first_of_10000 = ''100000101T000000Z''"
  by (simp_all add: Format_def noon_def a_second_later_def half_a_second_later_def
      last_of_9999_def first_of_10000_def appendInt_def Let_def utod.simps digit_values)

theorem identifier_by_second_witness:
  "Format noon < Format a_second_later \<and> length (Format noon) = 16
   \<and> Format noon = Format half_a_second_later"
proof -
  have v: "valid_time noon" "valid_time a_second_later" "valid_time half_a_second_later"
    by (simp_all add: valid_time_def noon_def a_second_later_def half_a_second_later_def)
  have y: "0 \<le> year noon" "year noon \<le> 9999" "0 \<le> year a_second_later"
    "year a_second_later \<le> 9999" "0 \<le> year half_a_second_later"
    "year half_a_second_later \<le> 9999"
    by (simp_all add: noon_def a_second_later_def half_a_second_later_def)
  have o: "earlier_second noon a_second_later"
    by (simp add: earlier_second_def noon_def a_second_later_def)
  have s: "to_the_second noon = to_the_second half_a_second_later"
    by (simp add: to_the_second_def noon_def half_a_second_later_def)
  from identifier_by_second [OF v(1,2) y(1,2,3,4)]
  have a: "(Format noon < Format a_second_later) = earlier_second noon a_second_later"
    and b: "length (Format noon) = 16" by blast+
  from identifier_by_second [OF v(1,3) y(1,2,5,6)]
  have c: "(Format noon = Format half_a_second_later)
      = (to_the_second noon = to_the_second half_a_second_later)" by blast
  from a b c o s show ?thesis by blast
qed

text \<open>
  C8 as stated has every later instant get a greater identifier. Half a second after
  noon is later than noon and has the same identifier; and the first instant of the
  year 10000 is later than the last of 9999, its identifier has seventeen characters
  and is not the greater one.
\<close>

theorem later_instant_greater_counterexample:
  "earlier noon half_a_second_later
   \<and> \<not> (Format noon < Format half_a_second_later)
   \<and> earlier last_of_9999 first_of_10000
   \<and> \<not> (Format last_of_9999 < Format first_of_10000)
   \<and> length (Format first_of_10000) = 17"
  by (simp add: Format_examples Format_noon)
     (simp add: earlier_def earlier_second_def to_the_second_def noon_def
       half_a_second_later_def last_of_9999_def first_of_10000_def)

end
